theory Spec2Isabelle
  imports Complex_Main "HOL-Library.AList" "HOL-Library.Char_ord" "HOL-Library.List_Lexorder"
    "HOL-Library.Product_Lexorder" "HOL-Library.Multiset"
begin

section \<open>Values, errors and console output\<close>

text \<open>
  A cell of a pandas DataFrame of \<^verbatim>\<open>fii_analyzer.py\<close>: a Python \<^verbatim>\<open>str\<close>, a
  \<^verbatim>\<open>float\<close> or an \<^verbatim>\<open>int\<close>. Floats are modelled by the real number they denote
  (no rounding, no \<^verbatim>\<open>nan\<close>, no \<^verbatim>\<open>inf\<close>), and a decimal constant of the source by
  that decimal; strings are byte lists.
\<close>

datatype cell = Str string | Flt real | IntV int

datatype error = KeyError string | TypeError | ValueError string | AttributeError

section \<open>String conversions used by the normalizer\<close>

text \<open>
  \<^verbatim>\<open>str.replace(old, new)\<close>: every non-overlapping occurrence of \<open>old\<close>, from the left.
  The source only calls it with a one-character \<open>old\<close>; an empty \<open>old\<close> is left alone here.
\<close>

function str_replace :: "string \<Rightarrow> string \<Rightarrow> string \<Rightarrow> string" where
  "str_replace old new [] = []"
| "str_replace old new (c # cs) =
     (if old \<noteq> [] \<and> take (length old) (c # cs) = old
      then new @ str_replace old new (drop (length old) (c # cs))
      else c # str_replace old new cs)"
  by pat_completeness auto
termination
  by (relation "measure (\<lambda>(old, new, s). length s)") (auto simp: Suc_le_eq)

definition digit_val :: "char \<Rightarrow> nat option" where
  "digit_val c =
     map_of [(CHR ''0'', 0), (CHR ''1'', 1), (CHR ''2'', 2), (CHR ''3'', 3), (CHR ''4'', 4),
             (CHR ''5'', 5), (CHR ''6'', 6), (CHR ''7'', 7), (CHR ''8'', 8), (CHR ''9'', 9)] c"

fun nat_of_digits :: "nat \<Rightarrow> string \<Rightarrow> nat option" where
  "nat_of_digits acc [] = Some acc"
| "nat_of_digits acc (c # cs) =
     (case digit_val c of None \<Rightarrow> None | Some d \<Rightarrow> nat_of_digits (10 * acc + d) cs)"

text \<open>
  \<^verbatim>\<open>float(s)\<close> on a plain decimal numeral: an optional sign, digits, at most one point,
  at least one digit. The result is the number the numeral denotes; \<^verbatim>\<open>float\<close> returns
  the double nearest to it, which is that number for every whole number up to \<open>2 ^ 53\<close>
  and may differ from it in the last place otherwise. Any other string is a
  \<^verbatim>\<open>ValueError\<close> here. Python's \<^verbatim>\<open>float\<close> also reads exponents, digit-group
  underscores, surrounding blanks and the words \<^verbatim>\<open>inf\<close> and \<^verbatim>\<open>nan\<close>: those forms are
  outside this model, which covers the numerals that are left of a locale-formatted cell
  once its separators are replaced.
\<close>

definition py_float :: "string \<Rightarrow> error + real" where
  "py_float s =
     (let (neg, body) =
            (case s of
               [] \<Rightarrow> (False, s)
             | c # cs \<Rightarrow> if c = CHR ''-'' then (True, cs)
                        else if c = CHR ''+'' then (False, cs) else (False, s));
          ip = takeWhile (\<lambda>c. c \<noteq> CHR ''.'') body;
          fp = drop 1 (dropWhile (\<lambda>c. c \<noteq> CHR ''.'') body)
      in if ip = [] \<and> fp = [] then Inl (ValueError s)
         else (case (nat_of_digits 0 ip, nat_of_digits 0 fp) of
                 (Some i, Some f) \<Rightarrow>
                   Inr ((if neg then - 1 else 1) * (real i + real f / 10 ^ length fp))
               | _ \<Rightarrow> Inl (ValueError s)))"

text \<open>The conversion of one cell of each column of \<^verbatim>\<open>clean_and_convert_data\<close>.\<close>

definition div100 :: "error + real \<Rightarrow> error + real" where
  "div100 r = (case r of Inl e \<Rightarrow> Inl e | Inr x \<Rightarrow> Inr (x / 100))"

definition conv_dividend_yield :: "string \<Rightarrow> error + real" where
  "conv_dividend_yield s =
     div100 (py_float (str_replace '','' ''.'' (str_replace ''.'' '''' (str_replace ''%'' '''' s))))"

definition conv_pvp :: "string \<Rightarrow> error + real" where
  "conv_pvp s = py_float (str_replace '','' ''.'' s)"

definition conv_valor_de_mercado :: "string \<Rightarrow> error + real" where
  "conv_valor_de_mercado x = py_float (str_replace ''.'' '''' x)"

definition conv_liquidez :: "string \<Rightarrow> error + real" where
  "conv_liquidez x = py_float (str_replace ''.'' '''' x)"

definition conv_vacancia_media :: "string \<Rightarrow> error + real" where
  "conv_vacancia_media s =
     div100 (py_float (str_replace '','' ''.'' (str_replace ''%'' '''' s)))"

section \<open>Data frames\<close>

text \<open>
  A DataFrame: its column labels, and its rows, each a Series from column label to cell
  (in column order). The frame that \<^verbatim>\<open>scrape_fundamentus_fiis\<close> returns holds the text
  of the table cells, so it is a \<open>string frame\<close>; from the normalizer on, a \<open>cell frame\<close>.
\<close>

datatype 'a frame = Frame (columns: "string list") (rows: "(string \<times> 'a) list list")

type_synonym series = "(string \<times> cell) list"

definition and_then :: "error + 'a \<Rightarrow> ('a \<Rightarrow> error + 'b) \<Rightarrow> error + 'b" where
  "and_then r f = (case r of Inl e \<Rightarrow> Inl e | Inr x \<Rightarrow> f x)"

fun traverse :: "('a \<Rightarrow> error + 'b) \<Rightarrow> 'a list \<Rightarrow> error + 'b list" where
  "traverse f [] = Inr []"
| "traverse f (x # xs) =
     (case f x of
        Inl e \<Rightarrow> Inl e
      | Inr y \<Rightarrow> (case traverse f xs of Inl e \<Rightarrow> Inl e | Inr ys \<Rightarrow> Inr (y # ys)))"

text \<open>\<^verbatim>\<open>df[c]\<close>: the cells of column \<open>c\<close>, or \<^verbatim>\<open>KeyError\<close>.\<close>

definition lookup :: "(string \<times> 'a) list \<Rightarrow> string \<Rightarrow> error + 'a" where
  "lookup r c = (case map_of r c of None \<Rightarrow> Inl (KeyError c) | Some v \<Rightarrow> Inr v)"

definition get_column :: "string \<Rightarrow> 'a frame \<Rightarrow> error + 'a list" where
  "get_column c df =
     (if c \<in> set (columns df) then traverse (\<lambda>r. lookup r c) (rows df) else Inl (KeyError c))"

text \<open>\<^verbatim>\<open>df[c] = values\<close>: overwrites column \<open>c\<close>, or appends it as the last column.\<close>

definition set_column :: "string \<Rightarrow> 'a list \<Rightarrow> 'a frame \<Rightarrow> 'a frame" where
  "set_column c vs df =
     Frame (if c \<in> set (columns df) then columns df else columns df @ [c])
           (map (\<lambda>(r, v). AList.update c v r) (zip (rows df) vs))"

section \<open>Normalizer: \<^verbatim>\<open>clean_and_convert_data\<close>\<close>

text \<open>
  The \<^verbatim>\<open>.str\<close> accessor of a column: pandas raises \<^verbatim>\<open>AttributeError\<close> on a column
  that does not hold strings.
\<close>

definition str_accessor :: "cell \<Rightarrow> error + string" where
  "str_accessor v = (case v of Str s \<Rightarrow> Inr s | _ \<Rightarrow> Inl AttributeError)"

text \<open>
  \<^verbatim>\<open>df[c] = df[c].str.replace(..)...astype(float)\<close> (and \<^verbatim>\<open>/ 100\<close>), with \<open>conv\<close> the
  conversion of one string. Where the label \<open>c\<close> heads more than one column,
  \<^verbatim>\<open>df[c]\<close> is a DataFrame, which has no \<^verbatim>\<open>.str\<close>: an \<^verbatim>\<open>AttributeError\<close>.
\<close>

definition convert_str_column ::
  "string \<Rightarrow> (string \<Rightarrow> error + real) \<Rightarrow> cell frame \<Rightarrow> error + cell frame" where
  "convert_str_column c conv df =
     (if 1 < count_list (columns df) c then Inl AttributeError
      else
        and_then (get_column c df) (\<lambda>vs.
        and_then (traverse str_accessor vs) (\<lambda>ss.
        and_then (traverse conv ss) (\<lambda>xs.
        Inr (set_column c (map Flt xs) df)))))"

text \<open>
  \<^verbatim>\<open>df[c] = df[c].apply(lambda x: float(x.replace('.', '')) if isinstance(x, str) else x)\<close>.
  Where the label \<open>c\<close> heads more than one column, \<^verbatim>\<open>df[c]\<close> is a DataFrame and
  \<^verbatim>\<open>apply\<close> hands the lambda each of its columns, none of them a \<^verbatim>\<open>str\<close>: every
  cell stays as it is.
\<close>

definition convert_apply_column ::
  "string \<Rightarrow> (string \<Rightarrow> error + real) \<Rightarrow> cell frame \<Rightarrow> error + cell frame" where
  "convert_apply_column c conv df =
     (if 1 < count_list (columns df) c then Inr df
      else
        and_then (get_column c df) (\<lambda>vs.
        and_then (traverse (\<lambda>x. case x of
                                   Str s \<Rightarrow> (case conv s of Inl e \<Rightarrow> Inl e | Inr y \<Rightarrow> Inr (Flt y))
                                 | _ \<Rightarrow> Inr x) vs) (\<lambda>xs.
        Inr (set_column c xs df))))"

datatype message =
    Banner | Fonte | AvisoArquivoExiste string | OperacaoCancelada | IniciandoRaspagem
  | ErroTabelaNaoEncontrada | ErroAcessarSite | ErroInesperado
  | DadosObtidos | ErroConverterDados error | ErroAplicarFiltros error
  | ErroCalcularScore error | ProcessoConcluido | ArquivoSalvo string | TotalFundos nat
  | TopFundosPorSegmento | SegmentoLinha string | GrupoTabela "series list"
  | ErroSalvarArquivo | NenhumFundoAtende | ErroFiltrarDados | ErroProcessarDados
  | NaoFoiPossivelObterDados

datatype event = Print message | WriteExcel string "(string \<times> cell frame) list"

definition strings_frame :: "string frame \<Rightarrow> cell frame" where
  "strings_frame raw = Frame (columns raw) (map (map (\<lambda>(k, s). (k, Str s))) (rows raw))"

definition clean_try :: "cell frame \<Rightarrow> error + cell frame" where
  "clean_try df =
     and_then (convert_str_column ''Dividend Yield'' conv_dividend_yield df) (\<lambda>df.
     and_then (convert_str_column ''P/VP'' conv_pvp df) (\<lambda>df.
     and_then (convert_apply_column ''Valor de Mercado'' conv_valor_de_mercado df) (\<lambda>df.
     and_then (convert_apply_column ''Liquidez'' conv_liquidez df) (\<lambda>df.
     convert_str_column ''Vacancia Media'' conv_vacancia_media df))))"

definition clean_and_convert_data :: "string frame \<Rightarrow> cell frame option \<times> event list" where
  "clean_and_convert_data raw =
     (case clean_try (strings_frame raw) of
        Inr df \<Rightarrow> (Some df, [])
      | Inl e \<Rightarrow> (None, [Print (ErroConverterDados e)]))"

section \<open>Filter: \<^verbatim>\<open>apply_filters\<close>\<close>

text \<open>The number a numeric cell denotes; Python compares \<^verbatim>\<open>int\<close> and \<^verbatim>\<open>float\<close> exactly.\<close>

definition cell_num :: "cell \<Rightarrow> real option" where
  "cell_num v = (case v of Flt x \<Rightarrow> Some x | IntV n \<Rightarrow> Some (of_int n) | Str s \<Rightarrow> None)"

text \<open>
  \<^verbatim>\<open>a < b\<close> on two cells: numbers by value, strings lexicographically by code point;
  a string against a number is a \<^verbatim>\<open>TypeError\<close>.
\<close>

definition py_lt :: "cell \<Rightarrow> cell \<Rightarrow> error + bool" where
  "py_lt a b =
     (case (a, b) of
        (Str s, Str t) \<Rightarrow> Inr (s < t)
      | (Str s, _) \<Rightarrow> Inl TypeError
      | (_, Str t) \<Rightarrow> Inl TypeError
      | _ \<Rightarrow> Inr (the (cell_num a) < the (cell_num b)))"

text \<open>\<^verbatim>\<open>df[c] > k\<close> and \<^verbatim>\<open>df[c] < k\<close>: one truth value per row.\<close>

definition gt_mask :: "string \<Rightarrow> real \<Rightarrow> cell frame \<Rightarrow> error + bool list" where
  "gt_mask c k df = and_then (get_column c df) (traverse (\<lambda>v. py_lt (Flt k) v))"

definition lt_mask :: "string \<Rightarrow> real \<Rightarrow> cell frame \<Rightarrow> error + bool list" where
  "lt_mask c k df = and_then (get_column c df) (traverse (\<lambda>v. py_lt v (Flt k)))"

definition mask_and :: "bool list \<Rightarrow> bool list \<Rightarrow> bool list" where
  "mask_and m1 m2 = map (\<lambda>(a, b). a \<and> b) (zip m1 m2)"

definition select_rows :: "bool list \<Rightarrow> 'a frame \<Rightarrow> 'a frame" where
  "select_rows m df = Frame (columns df) (map fst (filter snd (zip (rows df) m)))"

definition filters_try :: "cell frame \<Rightarrow> error + cell frame" where
  "filters_try df =
     and_then (gt_mask ''Dividend Yield'' 0.7 df) (\<lambda>m1.
     and_then (lt_mask ''Dividend Yield'' 0.25 df) (\<lambda>m2.
     and_then (gt_mask ''P/VP'' 0.5 df) (\<lambda>m3.
     and_then (lt_mask ''P/VP'' 1.1 df) (\<lambda>m4.
     and_then (gt_mask ''Liquidez'' 1000000 df) (\<lambda>m5.
     and_then (gt_mask ''Valor de Mercado'' 1000000000 df) (\<lambda>m6.
     Inr (select_rows
            (mask_and (mask_and (mask_and (mask_and (mask_and m1 m2) m3) m4) m5) m6) df)))))))"

definition apply_filters :: "cell frame \<Rightarrow> cell frame option \<times> event list" where
  "apply_filters df =
     (case filters_try df of
        Inr filtered_df \<Rightarrow> (Some filtered_df, [])
      | Inl e \<Rightarrow> (None, [Print (ErroAplicarFiltros e)]))"

text \<open>
  The six bounds read on one record (False where the field is missing or not a number):
  the property the filter is specified by.
\<close>

definition num_field :: "series \<Rightarrow> string \<Rightarrow> real option" where
  "num_field r c = (case map_of r c of None \<Rightarrow> None | Some v \<Rightarrow> cell_num v)"

definition num_col :: "string \<Rightarrow> cell frame \<Rightarrow> bool" where
  "num_col c df \<longleftrightarrow> c \<in> set (columns df) \<and> list_all (\<lambda>r. num_field r c \<noteq> None) (rows df)"

definition gt_row :: "string \<Rightarrow> real \<Rightarrow> series \<Rightarrow> bool" where
  "gt_row c k r = (case num_field r c of None \<Rightarrow> False | Some x \<Rightarrow> k < x)"

definition lt_row :: "string \<Rightarrow> real \<Rightarrow> series \<Rightarrow> bool" where
  "lt_row c k r = (case num_field r c of None \<Rightarrow> False | Some x \<Rightarrow> x < k)"

definition passes_filters :: "series \<Rightarrow> bool" where
  "passes_filters r \<longleftrightarrow>
     gt_row ''Dividend Yield'' 0.7 r \<and> lt_row ''Dividend Yield'' 0.25 r \<and>
     gt_row ''P/VP'' 0.5 r \<and> lt_row ''P/VP'' 1.1 r \<and>
     gt_row ''Liquidez'' 1000000 r \<and> gt_row ''Valor de Mercado'' 1000000000 r"

section \<open>Scorer: \<^verbatim>\<open>calculate_score\<close>\<close>

definition py_le :: "cell \<Rightarrow> cell \<Rightarrow> error + bool" where
  "py_le a b =
     (case (a, b) of
        (Str s, Str t) \<Rightarrow> Inr (s \<le> t)
      | (Str s, _) \<Rightarrow> Inl TypeError
      | (_, Str t) \<Rightarrow> Inl TypeError
      | _ \<Rightarrow> Inr (the (cell_num a) \<le> the (cell_num b)))"

text \<open>
  \<^verbatim>\<open>if row[c] >= hi: score += 2  elif row[c] >= lo: score += 1\<close> (higher is better) and
  \<^verbatim>\<open>if row[c] <= lo: score += 2  elif row[c] <= hi: score += 1\<close> (lower is better).
\<close>

definition at_least_step :: "series \<Rightarrow> string \<Rightarrow> real \<Rightarrow> real \<Rightarrow> int \<Rightarrow> error + int" where
  "at_least_step row c hi lo score =
     and_then (lookup row c) (\<lambda>v.
     and_then (py_le (Flt hi) v) (\<lambda>b.
     if b then Inr (score + 2)
     else and_then (lookup row c) (\<lambda>v.
          and_then (py_le (Flt lo) v) (\<lambda>b.
          if b then Inr (score + 1) else Inr score))))"

definition at_most_step :: "series \<Rightarrow> string \<Rightarrow> real \<Rightarrow> real \<Rightarrow> int \<Rightarrow> error + int" where
  "at_most_step row c lo hi score =
     and_then (lookup row c) (\<lambda>v.
     and_then (py_le v (Flt lo)) (\<lambda>b.
     if b then Inr (score + 2)
     else and_then (lookup row c) (\<lambda>v.
          and_then (py_le v (Flt hi)) (\<lambda>b.
          if b then Inr (score + 1) else Inr score))))"

definition score_try :: "series \<Rightarrow> error + int" where
  "score_try row =
     and_then (at_least_step row ''Dividend Yield'' 0.14 0.12 0) (\<lambda>score.
     and_then (at_most_step row ''P/VP'' 0.80 0.85 score) (\<lambda>score.
     and_then (at_least_step row ''Liquidez'' 5000000 2000000 score) (\<lambda>score.
     and_then (at_least_step row ''Valor de Mercado'' 2000000000 1500000000 score) (\<lambda>score.
     and_then (at_most_step row ''Vacancia Media'' 0.05 0.10 score) (\<lambda>score.
     Inr (min score 10))))))"

definition calculate_score :: "series \<Rightarrow> int \<times> event list" where
  "calculate_score row =
     (case score_try row of
        Inr score \<Rightarrow> (score, [])
      | Inl e \<Rightarrow> (0, [Print (ErroCalcularScore e)]))"

text \<open>The contribution of one metric, as the specification words it: 0, 1 or 2 points.\<close>

definition points_at_least :: "real \<Rightarrow> real \<Rightarrow> real \<Rightarrow> int" where
  "points_at_least hi lo x = (if hi \<le> x then 2 else if lo \<le> x then 1 else 0)"

definition points_at_most :: "real \<Rightarrow> real \<Rightarrow> real \<Rightarrow> int" where
  "points_at_most lo hi x = (if x \<le> lo then 2 else if x \<le> hi then 1 else 0)"

text \<open>\<^verbatim>\<open>filtered_df['Nota'] = filtered_df.apply(calculate_score, axis=1)\<close>.\<close>

definition add_nota :: "cell frame \<Rightarrow> cell frame \<times> event list" where
  "add_nota df =
     (set_column ''Nota'' (map (\<lambda>row. IntV (fst (calculate_score row))) (rows df)) df,
      concat (map (\<lambda>row. snd (calculate_score row)) (rows df)))"

section \<open>Ranker and grouper\<close>

text \<open>\<^verbatim>\<open>df[[c1, ..., cn]]\<close>: the listed columns in the listed order, or \<^verbatim>\<open>KeyError\<close>.\<close>

definition select_columns :: "string list \<Rightarrow> 'a frame \<Rightarrow> error + 'a frame" where
  "select_columns cs df =
     (case filter (\<lambda>c. c \<notin> set (columns df)) cs of
        c # _ \<Rightarrow> Inl (KeyError c)
      | [] \<Rightarrow>
          and_then
            (traverse (\<lambda>r. traverse (\<lambda>c. and_then (lookup r c) (\<lambda>v. Inr (c, v))) cs) (rows df))
            (\<lambda>rs. Inr (Frame cs rs)))"

text \<open>
  \<^verbatim>\<open>df.sort_values(by, ascending)\<close> on several keys: a stable sort (pandas sorts the
  keys with a stable lexsort), the first key the most significant. \<open>row_le keys a b\<close>: row
  \<open>a\<close> may stand before row \<open>b\<close>.
\<close>

definition key_lt :: "string \<Rightarrow> series \<Rightarrow> series \<Rightarrow> bool" where
  "key_lt c a b =
     (case (map_of a c, map_of b c) of
        (Some x, Some y) \<Rightarrow> py_lt x y = Inr True
      | _ \<Rightarrow> False)"

fun row_le :: "(string \<times> bool) list \<Rightarrow> series \<Rightarrow> series \<Rightarrow> bool" where
  "row_le [] a b = True"
| "row_le ((c, ascending) # ks) a b =
     (if key_lt c a b then ascending
      else if key_lt c b a then \<not> ascending
      else row_le ks a b)"

fun insort_by :: "('a \<Rightarrow> 'a \<Rightarrow> bool) \<Rightarrow> 'a \<Rightarrow> 'a list \<Rightarrow> 'a list" where
  "insort_by le x [] = [x]"
| "insort_by le x (y # ys) = (if le x y then x # y # ys else y # insort_by le x ys)"

definition sort_by :: "('a \<Rightarrow> 'a \<Rightarrow> bool) \<Rightarrow> 'a list \<Rightarrow> 'a list" where
  "sort_by le xs = foldr (insort_by le) xs []"

definition is_str :: "cell \<Rightarrow> bool" where
  "is_str v = (case v of Str s \<Rightarrow> True | _ \<Rightarrow> False)"

text \<open>
  A sort key must be a column of the frame (\<^verbatim>\<open>KeyError\<close>) whose cells can be compared
  with each other: all strings or all numbers (\<^verbatim>\<open>TypeError\<close>).
\<close>

definition sort_key_check :: "cell frame \<Rightarrow> string \<Rightarrow> error + unit" where
  "sort_key_check df c =
     and_then (get_column c df) (\<lambda>vs.
     if list_all is_str vs \<or> list_all (\<lambda>v. \<not> is_str v) vs then Inr () else Inl TypeError)"

definition sort_values :: "(string \<times> bool) list \<Rightarrow> cell frame \<Rightarrow> error + cell frame" where
  "sort_values keys df =
     and_then (traverse (\<lambda>(c, ascending). sort_key_check df c) keys) (\<lambda>_.
     Inr (Frame (columns df) (sort_by (row_le keys) (rows df))))"

text \<open>
  \<^verbatim>\<open>df.groupby(c).head(n)\<close>: the rows that are among the first \<open>n\<close> of their group, in
  the order of the frame. \<open>seen\<close> holds the group keys of the rows already passed.
  (\<open>n\<close> is a count; the one call of the source passes 5.)
\<close>

fun head_rows :: "nat \<Rightarrow> string \<Rightarrow> cell option list \<Rightarrow> series list \<Rightarrow> series list" where
  "head_rows n c seen [] = []"
| "head_rows n c seen (r # rs) =
     (if count_list seen (map_of r c) < n
      then r # head_rows n c (map_of r c # seen) rs
      else head_rows n c (map_of r c # seen) rs)"

definition groupby_head :: "string \<Rightarrow> nat \<Rightarrow> cell frame \<Rightarrow> error + cell frame" where
  "groupby_head c n df =
     and_then (get_column c df) (\<lambda>_. Inr (Frame (columns df) (head_rows n c [] (rows df))))"

definition frame_empty :: "'a frame \<Rightarrow> bool" where
  "frame_empty df \<longleftrightarrow> rows df = [] \<or> columns df = []"

text \<open>
  \<^verbatim>\<open>get_top_by_segment(df, n=5)\<close>. The function has no handler of its own: an error of
  a sort or of the grouping leaves it as an exception.
\<close>

definition get_top_by_segment :: "cell frame \<Rightarrow> nat \<Rightarrow> error + cell frame" where
  "get_top_by_segment df n =
     (if frame_empty df then Inr (Frame [] [])
      else
        and_then (sort_values [(''Segmento'', True), (''Nota'', False), (''Dividend Yield'', False)] df)
          (\<lambda>sorted_df.
        and_then (groupby_head ''Segmento'' n sorted_df) (\<lambda>heads.
        sort_values [(''Segmento'', True), (''Nota'', False)] heads)))"

section \<open>The pipeline: \<^verbatim>\<open>main\<close>\<close>

text \<open>
  What a run depends on outside the program: which paths exist, what the scraper gets from
  the site, and whether the spreadsheet can be written.
\<close>

datatype scrape_failure = RequestFailed | TableNotFound | OtherFailure

datatype world =
  World (path_exists: "string \<Rightarrow> bool") (site: "scrape_failure + string frame")
    (writable: bool)

datatype outcome = Returned | Uncaught error

definition verificar_arquivo_existente :: "world \<Rightarrow> string \<Rightarrow> bool \<times> event list" where
  "verificar_arquivo_existente w nome_arquivo =
     (True, if path_exists w nome_arquivo then [Print (AvisoArquivoExiste nome_arquivo)] else [])"

definition scrape_fundamentus_fiis :: "world \<Rightarrow> string frame option \<times> event list" where
  "scrape_fundamentus_fiis w =
     (case site w of
        Inr df \<Rightarrow> (Some df, [])
      | Inl TableNotFound \<Rightarrow> (None, [Print ErroTabelaNaoEncontrada])
      | Inl RequestFailed \<Rightarrow> (None, [Print ErroAcessarSite])
      | Inl OtherFailure \<Rightarrow> (None, [Print ErroInesperado]))"

definition output_file :: string where
  "output_file = ''fundos_imobiliarios_filtrados.xlsx''"

definition report_columns :: "string list" where
  "report_columns =
     [''Papel'', ''Segmento'', ''Dividend Yield'', ''P/VP'', ''Valor de Mercado'', ''Liquidez'',
      ''Qtd Imoveis'', ''Vacancia Media'', ''Nota'']"

text \<open>
  The closing summary, one block per group of \<^verbatim>\<open>top_by_segment.groupby('Segmento')\<close>.
  The frame is sorted by \<^verbatim>\<open>Segmento\<close>, so the groups come in the order in which their
  keys first appear.
\<close>

definition segment_summary :: "cell frame \<Rightarrow> event list" where
  "segment_summary top_df =
     concat (map (\<lambda>k. [Print (SegmentoLinha (case k of Some (Str s) \<Rightarrow> s | _ \<Rightarrow> [])),
                        Print (GrupoTabela
                          (map (\<lambda>r. filter (\<lambda>(c, v). c \<in> set [''Papel'', ''Nota'', ''Dividend Yield'', ''P/VP'']) r)
                             (filter (\<lambda>r. map_of r ''Segmento'' = k) (rows top_df))))])
                 (remdups (map (\<lambda>r. map_of r ''Segmento'') (rows top_df))))"

text \<open>
  The \<^verbatim>\<open>try\<close> block that saves the two sheets and prints the summary; the styling of
  the sheets is not modelled. If the file cannot be written, the handler prints one line.
\<close>

definition save_report :: "world \<Rightarrow> cell frame \<Rightarrow> cell frame \<Rightarrow> event list" where
  "save_report w final_df top_by_segment =
     (if writable w
      then [WriteExcel output_file
              ((''Todos Fundos'', final_df) #
               (if \<not> frame_empty top_by_segment
                then [(''Top por Segmento'', top_by_segment)] else []))] @
           [Print ProcessoConcluido, Print (ArquivoSalvo output_file),
            Print (TotalFundos (length (rows final_df)))] @
           (if \<not> frame_empty top_by_segment
            then Print TopFundosPorSegmento # segment_summary top_by_segment else [])
      else [Print ErroSalvarArquivo])"

text \<open>Lines 264 to 303: score, select, rank, group, save. No handler covers the first four.\<close>

definition rank_and_save :: "world \<Rightarrow> cell frame \<Rightarrow> event list \<times> outcome" where
  "rank_and_save w filtered_df =
     (let (scored, ev) = add_nota filtered_df in
      case select_columns report_columns scored of
        Inl e \<Rightarrow> (ev, Uncaught e)
      | Inr final_df \<Rightarrow>
          (case sort_values [(''Nota'', False), (''Dividend Yield'', False)] final_df of
             Inl e \<Rightarrow> (ev, Uncaught e)
           | Inr final_df \<Rightarrow>
               (case get_top_by_segment final_df 5 of
                  Inl e \<Rightarrow> (ev, Uncaught e)
                | Inr top_by_segment \<Rightarrow>
                    (ev @ save_report w final_df top_by_segment, Returned))))"

text \<open>The nested \<^verbatim>\<open>if ... is not None\<close> blocks of \<^verbatim>\<open>main\<close>, innermost first.\<close>

definition after_filter :: "world \<Rightarrow> cell frame option \<Rightarrow> event list \<times> outcome" where
  "after_filter w filtered =
     (case filtered of
        None \<Rightarrow> ([Print ErroFiltrarDados], Returned)
      | Some filtered_df \<Rightarrow>
          if length (rows filtered_df) > 0 then rank_and_save w filtered_df
          else ([Print NenhumFundoAtende], Returned))"

definition after_clean :: "world \<Rightarrow> cell frame option \<Rightarrow> event list \<times> outcome" where
  "after_clean w cleaned =
     (case cleaned of
        None \<Rightarrow> ([Print ErroProcessarDados], Returned)
      | Some df \<Rightarrow>
          (let (filtered, ev) = apply_filters df; (ev', out) = after_filter w filtered
           in (ev @ ev', out)))"

definition after_scrape :: "world \<Rightarrow> string frame option \<Rightarrow> event list \<times> outcome" where
  "after_scrape w scraped =
     (case scraped of
        None \<Rightarrow> ([Print NaoFoiPossivelObterDados], Returned)
      | Some df \<Rightarrow>
          (let (cleaned, ev) = clean_and_convert_data df; (ev', out) = after_clean w cleaned
           in (Print DadosObtidos # ev @ ev', out)))"

definition main :: "world \<Rightarrow> event list \<times> outcome" where
  "main w =
     (let (proceed, ev) = verificar_arquivo_existente w output_file in
      if \<not> proceed
      then ([Print Banner, Print Fonte] @ ev @ [Print OperacaoCancelada], Returned)
      else
        (let (scraped, ev1) = scrape_fundamentus_fiis w; (ev2, out) = after_scrape w scraped
         in ([Print Banner, Print Fonte] @ ev @ [Print IniciandoRaspagem] @ ev1 @ ev2, out)))"

section \<open>Locale-formatted numbers\<close>

text \<open>
  The strings the specification calls valid large-number strings: a natural number
  written in decimal with a point between the groups of three digits, as the site
  prints market value and liquidity.
\<close>

definition digit_char :: "nat \<Rightarrow> char" where
  "digit_char d = ''0123456789'' ! (d mod 10)"

fun digits_of :: "nat \<Rightarrow> string" where
  "digits_of n = (if n < 10 then [digit_char n] else digits_of (n div 10) @ [digit_char n])"

fun format_thousands :: "nat \<Rightarrow> string" where
  "format_thousands n =
     (if n < 1000 then digits_of n
      else format_thousands (n div 1000) @
           CHR ''.'' # [digit_char (n div 100), digit_char (n div 10), digit_char n])"

declare digits_of.simps [simp del] format_thousands.simps [simp del]

definition plain_digits :: "string \<Rightarrow> bool" where
  "plain_digits s \<longleftrightarrow> s \<noteq> [] \<and> (\<forall>c\<in>set s. \<exists>d. c = digit_char d)"

text \<open>Whether a run wrote the spreadsheet.\<close>

definition writes_file :: "event list \<Rightarrow> bool" where
  "writes_file evs = list_ex (\<lambda>e. case e of WriteExcel path sheets \<Rightarrow> True | Print m \<Rightarrow> False) evs"

text \<open>
  The columns the scorer reads, and the score as the specification words it: the sum of
  the five contributions, capped at 10 (\<open>score_of_fields\<close> also says what the code
  returns when a field is missing or not a number: 0).
\<close>

definition score_columns :: "string list" where
  "score_columns = [''Dividend Yield'', ''P/VP'', ''Liquidez'', ''Valor de Mercado'', ''Vacancia Media'']"

definition score_of_fields ::
  "real option \<Rightarrow> real option \<Rightarrow> real option \<Rightarrow> real option \<Rightarrow> real option \<Rightarrow> int" where
  "score_of_fields a b c d e =
     (case (a, b, c, d, e) of
        (Some dy, Some pvp, Some liq, Some vm, Some vac) \<Rightarrow>
          min (points_at_least 0.14 0.12 dy + points_at_most 0.80 0.85 pvp +
               points_at_least 5000000 2000000 liq + points_at_least 2000000000 1500000000 vm +
               points_at_most 0.05 0.10 vac) 10
      | _ \<Rightarrow> 0)"

definition total_points :: "real \<Rightarrow> real \<Rightarrow> real \<Rightarrow> real \<Rightarrow> real \<Rightarrow> int" where
  "total_points dy pvp liq vm vac =
     points_at_least 0.14 0.12 dy + points_at_most 0.80 0.85 pvp +
     points_at_least 5000000 2000000 liq + points_at_least 2000000000 1500000000 vm +
     points_at_most 0.05 0.10 vac"

text \<open>What the proofs about sorting ask of a comparison on the rows of a frame.\<close>

definition total_preorder_on :: "'a set \<Rightarrow> ('a \<Rightarrow> 'a \<Rightarrow> bool) \<Rightarrow> bool" where
  "total_preorder_on R le \<longleftrightarrow>
     (\<forall>x\<in>R. \<forall>y\<in>R. le x y \<or> le y x) \<and>
     (\<forall>x\<in>R. \<forall>y\<in>R. \<forall>z\<in>R. le x y \<longrightarrow> le y z \<longrightarrow> le x z)"

text \<open>
  The orders the specification gives the two reports: score descending, then yield
  descending; and category ascending, then score descending (then yield descending).
  \<open>in_segment g\<close> holds of the records of category \<open>g\<close>.
\<close>

definition str_field :: "series \<Rightarrow> string \<Rightarrow> string option" where
  "str_field r c = (case map_of r c of Some (Str s) \<Rightarrow> Some s | _ \<Rightarrow> None)"

definition str_col :: "string \<Rightarrow> cell frame \<Rightarrow> bool" where
  "str_col c df \<longleftrightarrow> c \<in> set (columns df) \<and> list_all (\<lambda>r. str_field r c \<noteq> None) (rows df)"

definition by_score_then_yield :: "series \<Rightarrow> series \<Rightarrow> bool" where
  "by_score_then_yield a b =
     (case (num_field a ''Nota'', num_field b ''Nota'',
            num_field a ''Dividend Yield'', num_field b ''Dividend Yield'') of
        (Some sa, Some sb, Some ya, Some yb) \<Rightarrow> sb < sa \<or> (sa = sb \<and> yb \<le> ya)
      | _ \<Rightarrow> False)"




text \<open>The same orders as sort keys, for records that hold the fields.\<close>

definition score_key :: "series \<Rightarrow> real \<times> real" where
  "score_key r = (- the (num_field r ''Nota''), - the (num_field r ''Dividend Yield''))"



definition scored :: "series \<Rightarrow> bool" where
  "scored r \<longleftrightarrow> num_field r ''Nota'' \<noteq> None \<and> num_field r ''Dividend Yield'' \<noteq> None"



section \<open>The report block on a well-formed frame\<close>

text \<open>
  What line 268 returns for a record that holds the selected columns: the record cut to
  these columns, in their order.
\<close>

definition project :: "string list \<Rightarrow> series \<Rightarrow> series" where
  "project cs r = concat (map (\<lambda>c. case map_of r c of None \<Rightarrow> [] | Some v \<Rightarrow> [(c, v)]) cs)"

text \<open>A record with the score that line 265 writes into its \<^verbatim>\<open>Nota\<close>.\<close>

definition scored_row :: "series \<Rightarrow> series" where
  "scored_row r = AList.update ''Nota'' (IntV (fst (calculate_score r))) r"

text \<open>
  The columns of the report that the filtered frame has to bring along (the ninth,
  \<^verbatim>\<open>Nota\<close>, is added by line 265), and the filtered frames on which lines 264 to 276 raise
  nothing: a non-empty frame with distinct column labels, every record holding the eight
  columns, with strings in \<^verbatim>\<open>Segmento\<close> and numbers in \<^verbatim>\<open>Dividend Yield\<close>.
\<close>

definition report_inputs :: "string list" where
  "report_inputs =
     [''Papel'', ''Segmento'', ''Dividend Yield'', ''P/VP'', ''Valor de Mercado'', ''Liquidez'',
      ''Qtd Imoveis'', ''Vacancia Media'']"

definition report_ready :: "cell frame \<Rightarrow> bool" where
  "report_ready f \<longleftrightarrow>
     distinct (columns f) \<and> rows f \<noteq> [] \<and>
     list_all (\<lambda>c. c \<in> set (columns f)) report_inputs \<and>
     list_all (\<lambda>r. list_all (\<lambda>c. map_of r c \<noteq> None) report_inputs) (rows f) \<and>
     str_col ''Segmento'' f \<and> num_col ''Dividend Yield'' f"

text \<open>
  A filtered frame of two funds, the rows of its report in ranked order, and a world in
  which the output file exists and can be written and the site delivers a one-row table.
\<close>

definition sample_filtered :: "cell frame" where
  "sample_filtered =
     Frame [''Papel'', ''Segmento'', ''Dividend Yield'', ''P/VP'', ''Valor de Mercado'',
            ''Liquidez'', ''Qtd Imoveis'', ''Vacancia Media'']
       [[(''Papel'', Str ''AAAA11''), (''Segmento'', Str ''Logistica''),
         (''Dividend Yield'', Flt 0.12), (''P/VP'', Flt 0.95),
         (''Valor de Mercado'', Flt 2500000000), (''Liquidez'', Flt 3000000),
         (''Qtd Imoveis'', Str ''3''), (''Vacancia Media'', Flt 0.05)],
        [(''Papel'', Str ''BBBB11''), (''Segmento'', Str ''Hibrido''),
         (''Dividend Yield'', Flt 0.15), (''P/VP'', Flt 0.75),
         (''Valor de Mercado'', Flt 1500000000), (''Liquidez'', Flt 6000000),
         (''Qtd Imoveis'', Str ''7''), (''Vacancia Media'', Flt 0.12)]]"

definition sample_ranked :: "series list" where
  "sample_ranked =
       [[(''Papel'', Str ''BBBB11''), (''Segmento'', Str ''Hibrido''),
         (''Dividend Yield'', Flt 0.15), (''P/VP'', Flt 0.75),
         (''Valor de Mercado'', Flt 1500000000), (''Liquidez'', Flt 6000000),
         (''Qtd Imoveis'', Str ''7''), (''Vacancia Media'', Flt 0.12), (''Nota'', IntV 7)],
        [(''Papel'', Str ''AAAA11''), (''Segmento'', Str ''Logistica''),
         (''Dividend Yield'', Flt 0.12), (''P/VP'', Flt 0.95),
         (''Valor de Mercado'', Flt 2500000000), (''Liquidez'', Flt 3000000),
         (''Qtd Imoveis'', Str ''3''), (''Vacancia Media'', Flt 0.05), (''Nota'', IntV 6)]]"

definition sample_world :: world where
  "sample_world =
     World (\<lambda>f. True)
       (Inr (Frame [''Papel'', ''Dividend Yield'', ''P/VP'', ''Valor de Mercado'', ''Liquidez'',
                    ''Vacancia Media'']
          [[(''Papel'', ''ABCD11''), (''Dividend Yield'', ''12,34%''), (''P/VP'', ''0,95''),
            (''Valor de Mercado'', ''2.500.000.000''), (''Liquidez'', ''3.000.000''),
            (''Vacancia Media'', ''5,00%'')]]))
       True"

section \<open>Properties of the filter\<close>

lemma traverse_Inr_iff:
  "traverse f xs = Inr ys \<longleftrightarrow> list_all2 (\<lambda>x y. f x = Inr y) xs ys"
proof (induction xs arbitrary: ys)
  case Nil
  then show ?case by auto
next
  case (Cons x xs)
  show ?case
    by (cases ys) (auto simp: Cons.IH [symmetric] split: sum.splits)
qed

lemma and_then_Inr_iff:
  "and_then r f = Inr y \<longleftrightarrow> (\<exists>x. r = Inr x \<and> f x = Inr y)"
  by (cases r) (simp_all add: and_then_def)

lemma py_lt_Flt_left: "py_lt (Flt k) v = Inr b \<longleftrightarrow> (\<exists>x. cell_num v = Some x \<and> b = (k < x))"
  by (cases v) (auto simp: py_lt_def cell_num_def)

lemma py_lt_Flt_right: "py_lt v (Flt k) = Inr b \<longleftrightarrow> (\<exists>x. cell_num v = Some x \<and> b = (x < k))"
  by (cases v) (auto simp: py_lt_def cell_num_def)

lemma column_mask_iff:
  assumes "\<And>v b. cmp v = Inr b \<longleftrightarrow> (\<exists>x. cell_num v = Some x \<and> b = P x)"
  shows "and_then (traverse (\<lambda>r. lookup r c) rs) (traverse cmp) = Inr m \<longleftrightarrow>
         list_all (\<lambda>r. num_field r c \<noteq> None) rs \<and>
         m = map (\<lambda>r. case num_field r c of None \<Rightarrow> False | Some x \<Rightarrow> P x) rs"
proof -
  have "(\<exists>vs. list_all2 (\<lambda>r v. lookup r c = Inr v) rs vs \<and> list_all2 (\<lambda>v b. cmp v = Inr b) vs m) \<longleftrightarrow>
        list_all (\<lambda>r. num_field r c \<noteq> None) rs \<and>
        m = map (\<lambda>r. case num_field r c of None \<Rightarrow> False | Some x \<Rightarrow> P x) rs"
  proof (induction rs arbitrary: m)
    case Nil
    then show ?case by auto
  next
    case (Cons r rs)
    show ?case
    proof (cases m)
      case Nil
      then show ?thesis by auto
    next
      case (Cons b bs)
      have "(\<exists>v. lookup r c = Inr v \<and> cmp v = Inr b) \<longleftrightarrow>
            (\<exists>x. num_field r c = Some x \<and> b = P x)"
        by (auto simp: lookup_def num_field_def assms split: option.splits)
      with Cons.IH [of bs] Cons show ?thesis
        by (auto simp: list_all2_Cons1)
    qed
  qed
  then show ?thesis
    by (simp add: and_then_Inr_iff traverse_Inr_iff)
qed


lemma gt_mask_iff:
  "gt_mask c k df = Inr m \<longleftrightarrow> num_col c df \<and> m = map (gt_row c k) (rows df)"
  using column_mask_iff [of "\<lambda>v. py_lt (Flt k) v" "\<lambda>x. k < x" c "rows df" m]
  by (auto simp: gt_mask_def get_column_def num_col_def gt_row_def py_lt_Flt_left and_then_def)

lemma lt_mask_iff:
  "lt_mask c k df = Inr m \<longleftrightarrow> num_col c df \<and> m = map (lt_row c k) (rows df)"
  using column_mask_iff [of "\<lambda>v. py_lt v (Flt k)" "\<lambda>x. x < k" c "rows df" m]
  by (auto simp: lt_mask_def get_column_def num_col_def lt_row_def py_lt_Flt_right and_then_def)

lemma mask_and_map: "mask_and (map f rs) (map g rs) = map (\<lambda>r. f r \<and> g r) rs"
  by (induction rs) (simp_all add: mask_and_def)

lemma select_rows_map: "select_rows (map P (rows df)) df = Frame (columns df) (filter P (rows df))"
proof -
  have "map fst (filter snd (zip rs (map P rs))) = filter P rs" for rs
    by (induction rs) simp_all
  then show ?thesis by (simp add: select_rows_def)
qed

lemma filters_try_iff:
  "filters_try df = Inr out \<longleftrightarrow>
     num_col ''Dividend Yield'' df \<and> num_col ''P/VP'' df \<and> num_col ''Liquidez'' df \<and>
     num_col ''Valor de Mercado'' df \<and>
     out = Frame (columns df) (filter passes_filters (rows df))"
  unfolding filters_try_def and_then_Inr_iff gt_mask_iff lt_mask_iff
  by (auto simp: mask_and_map select_rows_map passes_filters_def [abs_def])

lemma yield_bounds_exclusive: "\<not> (gt_row c 0.7 r \<and> lt_row c 0.25 r)"
  by (auto simp: gt_row_def lt_row_def split: option.splits)

lemma passes_filters_never: "\<not> passes_filters r"
  using yield_bounds_exclusive [of "''Dividend Yield''" r] unfolding passes_filters_def by blast

lemma set_column_rows:
  assumes "length vs = length (rows df)" and "r' \<in> set (rows (set_column c vs df))"
  shows "\<exists>r v. r \<in> set (rows df) \<and> v \<in> set vs \<and> r' = AList.update c v r"
  using assms by (auto simp: set_column_def dest: set_zip_leftD set_zip_rightD)

lemma num_field_update:
  "num_field (AList.update c v r) c' = (if c' = c then cell_num v else num_field r c')"
  by (simp add: num_field_def update_conv')

lemma num_col_set_column:
  assumes len: "length vs = length (rows df)" and c: "c \<in> set (columns df)"
    and vs: "\<forall>v\<in>set vs. cell_num v \<noteq> None"
  shows "num_col c (set_column c vs df)" and "num_col c' df \<Longrightarrow> num_col c' (set_column c vs df)"
proof -
  have cols: "columns (set_column c vs df) = columns df"
    using c by (simp add: set_column_def)
  show "num_col c (set_column c vs df)"
    unfolding num_col_def list_all_iff cols
    using c vs set_column_rows [OF len] by (fastforce simp: num_field_update)
  show "num_col c' (set_column c vs df)" if "num_col c' df"
    using that unfolding num_col_def list_all_iff cols
    using vs set_column_rows [OF len] by (fastforce simp: num_field_update)
qed

lemma get_column_Inr:
  "get_column c df = Inr vs \<Longrightarrow> c \<in> set (columns df) \<and> length vs = length (rows df)"
  by (auto simp: get_column_def traverse_Inr_iff dest: list_all2_lengthD split: if_splits)

lemma convert_str_column_num:
  assumes "convert_str_column c conv df = Inr df'"
  shows "columns df' = columns df" and "num_col c df'" and "num_col c' df \<Longrightarrow> num_col c' df'"
proof -
  from assms obtain vs ss xs where g: "get_column c df = Inr vs"
    and "traverse str_accessor vs = Inr ss" and "traverse conv ss = Inr xs"
    and df': "df' = set_column c (map Flt xs) df"
    by (auto simp: convert_str_column_def and_then_Inr_iff split: if_splits)
  then have len: "length (map Flt xs) = length (rows df)"
    using get_column_Inr [OF g] by (auto simp: traverse_Inr_iff dest!: list_all2_lengthD)
  have c: "c \<in> set (columns df)" using get_column_Inr [OF g] by simp
  have vs: "\<forall>v\<in>set (map Flt xs). cell_num v \<noteq> None" by (auto simp: cell_num_def)
  show "columns df' = columns df" using c by (simp add: df' set_column_def)
  show "num_col c df'" unfolding df' by (rule num_col_set_column(1) [OF len c vs])
  show "num_col c' df'" if "num_col c' df"
    unfolding df' by (rule num_col_set_column(2) [OF len c vs that])
qed

lemma convert_apply_column_num:
  assumes "convert_apply_column c conv df = Inr df'" and "count_list (columns df) c \<le> 1"
  shows "columns df' = columns df" and "num_col c df'" and "num_col c' df \<Longrightarrow> num_col c' df'"
proof -
  let ?f = "\<lambda>x. case x of Str s \<Rightarrow> (case conv s of Inl e \<Rightarrow> Inl e | Inr y \<Rightarrow> Inr (Flt y)) | _ \<Rightarrow> Inr x"
  from assms obtain vs xs where g: "get_column c df = Inr vs"
    and t: "traverse ?f vs = Inr xs" and df': "df' = set_column c xs df"
    by (auto simp: convert_apply_column_def and_then_Inr_iff split: if_splits)
  have len: "length xs = length (rows df)"
    using get_column_Inr [OF g] t by (auto simp: traverse_Inr_iff dest!: list_all2_lengthD)
  have c: "c \<in> set (columns df)" using get_column_Inr [OF g] by simp
  have num: "cell_num x \<noteq> None" if "?f v = Inr x" for v x
    using that by (cases v) (auto simp: cell_num_def split: sum.splits)
  have vs: "\<forall>v\<in>set xs. cell_num v \<noteq> None"
  proof
    fix x assume "x \<in> set xs"
    then obtain i where i: "i < length xs" "xs ! i = x" by (auto simp: in_set_conv_nth)
    with t have "?f (vs ! i) = Inr x"
      unfolding traverse_Inr_iff by (auto simp: list_all2_conv_all_nth)
    then show "cell_num x \<noteq> None" by (rule num)
  qed
  show "columns df' = columns df" using c by (simp add: df' set_column_def)
  show "num_col c df'" unfolding df' by (rule num_col_set_column(1) [OF len c vs])
  show "num_col c' df'" if "num_col c' df"
    unfolding df' by (rule num_col_set_column(2) [OF len c vs that])
qed

lemma convert_apply_column_columns:
  "convert_apply_column c conv df = Inr df' \<Longrightarrow> columns df' = columns df"
  by (auto simp: convert_apply_column_def and_then_Inr_iff set_column_def
      dest: get_column_Inr split: if_splits)

lemma clean_try_columns:
  assumes "clean_try df = Inr df'"
  shows "columns df' = columns df"
proof -
  from assms obtain d1 d2 d3 d4 where
    s1: "convert_str_column ''Dividend Yield'' conv_dividend_yield df = Inr d1" and
    s2: "convert_str_column ''P/VP'' conv_pvp d1 = Inr d2" and
    s3: "convert_apply_column ''Valor de Mercado'' conv_valor_de_mercado d2 = Inr d3" and
    s4: "convert_apply_column ''Liquidez'' conv_liquidez d3 = Inr d4" and
    s5: "convert_str_column ''Vacancia Media'' conv_vacancia_media d4 = Inr df'"
    by (auto simp: clean_try_def and_then_Inr_iff)
  show ?thesis
    by (simp add: convert_str_column_num(1) [OF s1] convert_str_column_num(1) [OF s2]
        convert_apply_column_columns [OF s3] convert_apply_column_columns [OF s4]
        convert_str_column_num(1) [OF s5])
qed

lemma distinct_count_list: "distinct xs \<Longrightarrow> count_list xs x \<le> 1"
  by (induction xs) (auto simp: count_list_0_iff)

lemma clean_try_num:
  assumes "clean_try df = Inr df'" and "distinct (columns df)"
  shows "columns df' = columns df"
    and "num_col ''Dividend Yield'' df'" and "num_col ''P/VP'' df'"
    and "num_col ''Valor de Mercado'' df'" and "num_col ''Liquidez'' df'"
    and "num_col ''Vacancia Media'' df'"
proof -
  from assms obtain d1 d2 d3 d4 where
    s1: "convert_str_column ''Dividend Yield'' conv_dividend_yield df = Inr d1" and
    s2: "convert_str_column ''P/VP'' conv_pvp d1 = Inr d2" and
    s3: "convert_apply_column ''Valor de Mercado'' conv_valor_de_mercado d2 = Inr d3" and
    s4: "convert_apply_column ''Liquidez'' conv_liquidez d3 = Inr d4" and
    s5: "convert_str_column ''Vacancia Media'' conv_vacancia_media d4 = Inr df'"
    by (auto simp: clean_try_def and_then_Inr_iff)
  note n1 = convert_str_column_num [OF s1] and n2 = convert_str_column_num [OF s2]
  have "distinct (columns d2)" using assms(2) by (simp add: n1(1) n2(1))
  note n3 = convert_apply_column_num [OF s3 distinct_count_list [OF this]]
  have "distinct (columns d3)" using assms(2) by (simp add: n1(1) n2(1) n3(1))
  note n4 = convert_apply_column_num [OF s4 distinct_count_list [OF this]]
  note n5 = convert_str_column_num [OF s5]
  show "columns df' = columns df" by (simp add: n1(1) n2(1) n3(1) n4(1) n5(1))
  show "num_col ''Dividend Yield'' df'" by (intro n5(3) n4(3) n3(3) n2(3) n1(2))
  show "num_col ''P/VP'' df'" by (intro n5(3) n4(3) n3(3) n2(2))
  show "num_col ''Valor de Mercado'' df'" by (intro n5(3) n4(3) n3(2))
  show "num_col ''Liquidez'' df'" by (intro n5(3) n4(2))
  show "num_col ''Vacancia Media'' df'" by (rule n5(2))
qed

text \<open>
  Claim C1. On a frame whose column labels are distinct, the filter keeps exactly the
  records that meet all six bounds (\<open>passes_filters\<close>); the two bounds on the yield
  exclude each other, so whenever the filter returns a frame, the frame has no rows; and
  if the frame is one that the normalizer returned, the filter does return: the empty
  frame with the same columns.
\<close>

theorem apply_filters_selects_nothing:
  assumes "distinct (columns df)"
  shows "(\<forall>out ev. apply_filters df = (Some out, ev) \<longrightarrow>
            columns out = columns df \<and> rows out = filter passes_filters (rows df) \<and>
            rows out = []) \<and>
         (\<forall>raw ev. clean_and_convert_data raw = (Some df, ev) \<longrightarrow>
            apply_filters df = (Some (Frame (columns df) []), []))"
proof (intro conjI allI impI)
  fix out ev
  assume "apply_filters df = (Some out, ev)"
  then have "filters_try df = Inr out"
    by (auto simp: apply_filters_def split: sum.splits)
  then have out: "out = Frame (columns df) (filter passes_filters (rows df))"
    by (simp add: filters_try_iff)
  show "columns out = columns df" by (simp add: out)
  show "rows out = filter passes_filters (rows df)" by (simp add: out)
  show "rows out = []" by (simp add: out passes_filters_never)
next
  fix raw ev
  assume "clean_and_convert_data raw = (Some df, ev)"
  then have c: "clean_try (strings_frame raw) = Inr df"
    by (auto simp: clean_and_convert_data_def split: sum.splits)
  have "columns df = columns (strings_frame raw)"
    by (rule clean_try_columns [OF c])
  with assms have "distinct (columns (strings_frame raw))"
    by simp
  note n = clean_try_num [OF c this]
  have "filters_try df = Inr (Frame (columns df) (filter passes_filters (rows df)))"
    by (simp add: filters_try_iff n)
  then show "apply_filters df = (Some (Frame (columns df) []), [])"
    by (simp add: apply_filters_def passes_filters_never)
qed

theorem apply_filters_selects_nothing_witness:
  "clean_and_convert_data
     (Frame [''Papel'', ''Dividend Yield'', ''P/VP'', ''Valor de Mercado'', ''Liquidez'', ''Vacancia Media'']
        [[(''Papel'', ''ABCD11''), (''Dividend Yield'', ''12,34%''), (''P/VP'', ''0,95''),
          (''Valor de Mercado'', ''2.500.000.000''), (''Liquidez'', ''3.000.000''),
          (''Vacancia Media'', ''5,00%'')]]) =
     (Some (Frame [''Papel'', ''Dividend Yield'', ''P/VP'', ''Valor de Mercado'', ''Liquidez'', ''Vacancia Media'']
        [[(''Papel'', Str ''ABCD11''), (''Dividend Yield'', Flt 0.1234), (''P/VP'', Flt 0.95),
          (''Valor de Mercado'', Flt 2500000000), (''Liquidez'', Flt 3000000),
          (''Vacancia Media'', Flt 0.05)]]), []) \<and>
   apply_filters
     (Frame [''Papel'', ''Dividend Yield'', ''P/VP'', ''Valor de Mercado'', ''Liquidez'', ''Vacancia Media'']
        [[(''Papel'', Str ''ABCD11''), (''Dividend Yield'', Flt 0.1234), (''P/VP'', Flt 0.95),
          (''Valor de Mercado'', Flt 2500000000), (''Liquidez'', Flt 3000000),
          (''Vacancia Media'', Flt 0.05)]]) =
     (Some (Frame [''Papel'', ''Dividend Yield'', ''P/VP'', ''Valor de Mercado'', ''Liquidez'', ''Vacancia Media''] []), [])"
proof -
  let ?raw = "Frame [''Papel'', ''Dividend Yield'', ''P/VP'', ''Valor de Mercado'', ''Liquidez'', ''Vacancia Media'']
        [[(''Papel'', ''ABCD11''), (''Dividend Yield'', ''12,34%''), (''P/VP'', ''0,95''),
          (''Valor de Mercado'', ''2.500.000.000''), (''Liquidez'', ''3.000.000''),
          (''Vacancia Media'', ''5,00%'')]]"
  let ?df = "Frame [''Papel'', ''Dividend Yield'', ''P/VP'', ''Valor de Mercado'', ''Liquidez'', ''Vacancia Media'']
        [[(''Papel'', Str ''ABCD11''), (''Dividend Yield'', Flt 0.1234), (''P/VP'', Flt 0.95),
          (''Valor de Mercado'', Flt 2500000000), (''Liquidez'', Flt 3000000),
          (''Vacancia Media'', Flt 0.05)]]"
  have clean: "clean_and_convert_data ?raw = (Some ?df, [])"
    by (simp add: clean_and_convert_data_def clean_try_def strings_frame_def
        convert_str_column_def convert_apply_column_def and_then_def get_column_def lookup_def
        set_column_def str_accessor_def conv_dividend_yield_def conv_pvp_def
        conv_valor_de_mercado_def conv_liquidez_def conv_vacancia_media_def py_float_def
        div100_def digit_val_def)
  have "distinct (columns ?df)"
    by simp
  then have "apply_filters ?df = (Some (Frame (columns ?df) []), [])"
    by (rule apply_filters_selects_nothing [THEN conjunct2, rule_format, OF _ clean])
  with clean show ?thesis
    by simp
qed

section \<open>Properties of the normalizer\<close>

lemma digit_val_digit_char: "digit_val (digit_char d) = Some (d mod 10)"
proof -
  have "d mod 10 < 10" by simp
  then have "d mod 10 = 0 \<or> d mod 10 = 1 \<or> d mod 10 = 2 \<or> d mod 10 = 3 \<or> d mod 10 = 4 \<or>
      d mod 10 = 5 \<or> d mod 10 = 6 \<or> d mod 10 = 7 \<or> d mod 10 = 8 \<or> d mod 10 = 9"
    by arith
  then show ?thesis
    unfolding digit_char_def digit_val_def by (elim disjE) simp_all
qed

lemma digit_char_not_point: "digit_char d \<noteq> CHR ''.''"
  using digit_val_digit_char [of d] by (auto simp: digit_val_def)

lemma plain_char_not_point: "\<exists>d. c = digit_char d \<Longrightarrow> c \<noteq> CHR ''.''"
  using digit_char_not_point by auto

lemma digit_char_not_sign: "digit_char d \<noteq> CHR ''-''" "digit_char d \<noteq> CHR ''+''"
  using digit_val_digit_char [of d] by (auto simp: digit_val_def)

lemma str_replace_point: "str_replace ''.'' '''' s = filter (\<lambda>c. c \<noteq> CHR ''.'') s"
  by (induction s) auto

lemma nat_of_digits_append:
  "nat_of_digits acc (xs @ ys) =
     (case nat_of_digits acc xs of None \<Rightarrow> None | Some a \<Rightarrow> nat_of_digits a ys)"
  by (induction xs arbitrary: acc) (auto split: option.splits)

lemma nat_of_digits_digits_of: "nat_of_digits acc (digits_of n) = Some (acc * 10 ^ length (digits_of n) + n)"
proof (induction n arbitrary: acc rule: digits_of.induct)
  case (1 n)
  show ?case
  proof (cases "n < 10")
    case True
    then show ?thesis
      by (simp add: digits_of.simps [of n] digit_val_digit_char)
  next
    case False
    have "nat_of_digits acc (digits_of n) =
          Some (10 * (acc * 10 ^ length (digits_of (n div 10)) + n div 10) + n mod 10)"
      using False by (simp add: digits_of.simps [of n] nat_of_digits_append "1.IH" digit_val_digit_char)
    moreover have "length (digits_of n) = Suc (length (digits_of (n div 10)))"
      using False by (simp add: digits_of.simps [of n])
    ultimately show ?thesis
      by (simp add: algebra_simps)
  qed
qed

lemma digits_of_plain: "c \<in> set (digits_of n) \<Longrightarrow> \<exists>d. c = digit_char d"
proof (induction n rule: digits_of.induct)
  case (1 n)
  then show ?case
    by (cases "n < 10") (auto simp: digits_of.simps [of n])
qed

lemma digits_of_nonempty: "digits_of n \<noteq> []"
  by (simp add: digits_of.simps [of n])

lemma py_float_plain_digits:
  assumes "plain_digits s" and "nat_of_digits 0 s = Some n"
  shows "py_float s = Inr (real n)"
proof -
  from assms(1) obtain c cs where s: "s = c # cs" by (cases s) (auto simp: plain_digits_def)
  with assms(1) have c: "c \<noteq> CHR ''-''" "c \<noteq> CHR ''+''"
    by (auto simp: plain_digits_def digit_char_not_sign)
  have sign: "(case s of [] \<Rightarrow> (False, s)
               | c # cs \<Rightarrow> if c = CHR ''-'' then (True, cs)
                          else if c = CHR ''+'' then (False, cs) else (False, s)) = (False, s)"
    using c by (simp add: s)
  have nopoint: "\<forall>c\<in>set s. c \<noteq> CHR ''.''"
    using assms(1) by (simp add: plain_digits_def plain_char_not_point)
  then have tw: "takeWhile (\<lambda>c. c \<noteq> CHR ''.'') s = s" and dw: "dropWhile (\<lambda>c. c \<noteq> CHR ''.'') s = []"
    by (simp_all add: takeWhile_eq_all_conv)
  have ne: "s \<noteq> []" by (simp add: s)
  show ?thesis
    unfolding py_float_def sign by (simp add: tw dw ne assms(2))
qed

lemma thousands_digits:
  "10 * (10 * (10 * (n div 1000) + n div 100 mod 10) + n div 10 mod 10) + n mod 10 = (n::nat)"
proof -
  have a: "n div 100 = n div 10 div 10" and b: "n div 1000 = n div 100 div 10"
    by (simp_all add: div_mult2_eq [symmetric])
  have "10 * (n div 1000) + n div 100 mod 10 = n div 100"
    unfolding b by (rule mult_div_mod_eq)
  moreover have "10 * (n div 100) + n div 10 mod 10 = n div 10"
    unfolding a by (rule mult_div_mod_eq)
  moreover have "10 * (n div 10) + n mod 10 = n"
    by (rule mult_div_mod_eq)
  ultimately show ?thesis by simp
qed

lemma filter_format_thousands:
  "plain_digits (filter (\<lambda>c. c \<noteq> CHR ''.'') (format_thousands n)) \<and>
   nat_of_digits 0 (filter (\<lambda>c. c \<noteq> CHR ''.'') (format_thousands n)) = Some n"
proof (induction n rule: format_thousands.induct)
  case (1 n)
  show ?case
  proof (cases "n < 1000")
    case True
    have "filter (\<lambda>c. c \<noteq> CHR ''.'') (digits_of n) = digits_of n"
      unfolding filter_id_conv by (simp add: digits_of_plain plain_char_not_point)
    with True show ?thesis
      using digits_of_plain [of _ n]
      by (auto simp: format_thousands.simps [of n] plain_digits_def digits_of_nonempty
          nat_of_digits_digits_of)
  next
    case False
    let ?f = "filter (\<lambda>c. c \<noteq> CHR ''.'') (format_thousands (n div 1000))"
    have eq: "filter (\<lambda>c. c \<noteq> CHR ''.'') (format_thousands n) =
          ?f @ [digit_char (n div 100), digit_char (n div 10), digit_char n]"
      using False by (simp add: format_thousands.simps [of n] digit_char_not_point)
    have ih: "plain_digits ?f" "nat_of_digits 0 ?f = Some (n div 1000)"
      using "1.IH" False by simp_all
    have "10 * (10 * (10 * (n div 1000) + n div 100 mod 10) + n div 10 mod 10) + n mod 10 = n"
      by (rule thousands_digits)
    then have "nat_of_digits 0 (?f @ [digit_char (n div 100), digit_char (n div 10), digit_char n]) = Some n"
      by (simp add: nat_of_digits_append ih(2) digit_val_digit_char)
    moreover have "plain_digits (?f @ [digit_char (n div 100), digit_char (n div 10), digit_char n])"
      using ih(1) by (auto simp: plain_digits_def)
    ultimately show ?thesis by (simp add: eq)
  qed
qed

text \<open>
  Claim C8. For every natural number up to \<open>2 ^ 53\<close> (the whole numbers that a float
  holds exactly) written with points between its groups of three digits, the conversion
  of the \<^verbatim>\<open>Valor de Mercado\<close> and \<^verbatim>\<open>Liquidez\<close> cells drops the points and reads the
  digits as that number; \<^verbatim>\<open>"1.234.567"\<close> becomes 1234567.0.
\<close>

theorem large_numbers_normalize:
  assumes "n \<le> 2 ^ 53"
  shows "conv_valor_de_mercado (format_thousands n) = Inr (real n) \<and>
         conv_liquidez (format_thousands n) = Inr (real n) \<and>
         format_thousands 1234567 = ''1.234.567'' \<and>
         conv_valor_de_mercado ''1.234.567'' = Inr 1234567 \<and>
         conv_liquidez ''1.234.567'' = Inr 1234567"
proof -
  have "py_float (str_replace ''.'' '''' (format_thousands m)) = Inr (real m)" for m
    unfolding str_replace_point using filter_format_thousands [of m]
    by (simp add: py_float_plain_digits)
  note gen = this
  have fmt: "format_thousands 1234567 = ''1.234.567''"
    by (simp add: format_thousands.simps digits_of.simps digit_char_def)
  show ?thesis
    using gen [of n] gen [of 1234567]
    by (simp add: conv_valor_de_mercado_def conv_liquidez_def fmt)
qed

theorem large_numbers_normalize_witness:
  "(2500000000::nat) \<le> 2 ^ 53 \<and>
   format_thousands 2500000000 = ''2.500.000.000'' \<and>
   conv_valor_de_mercado ''2.500.000.000'' = Inr 2500000000 \<and>
   conv_liquidez ''2.500.000.000'' = Inr 2500000000"
proof -
  have le: "(2500000000::nat) \<le> 2 ^ 53"
    by simp
  have fmt: "format_thousands 2500000000 = ''2.500.000.000''"
    by (simp add: format_thousands.simps digits_of.simps digit_char_def)
  from large_numbers_normalize [OF le] show ?thesis
    using le by (simp add: fmt)
qed

section \<open>Evaluation on concrete tables\<close>

lemmas conv_defs = conv_dividend_yield_def conv_pvp_def conv_valor_de_mercado_def
  conv_liquidez_def conv_vacancia_media_def py_float_def div100_def digit_val_def

lemmas clean_defs = clean_and_convert_data_def clean_try_def strings_frame_def
  convert_str_column_def convert_apply_column_def and_then_def get_column_def lookup_def
  set_column_def str_accessor_def

text \<open>
  A table with the header \<^verbatim>\<open>Liquidez\<close> twice: the normalizer returns the frame with
  both columns still text, and the filter fails on them.
\<close>

lemma repeated_label_is_not_converted:
  "clean_and_convert_data
     (Frame [''Dividend Yield'', ''P/VP'', ''Valor de Mercado'', ''Liquidez'', ''Liquidez'',
             ''Vacancia Media'']
        [[(''Dividend Yield'', ''12,34%''), (''P/VP'', ''0,95''),
          (''Valor de Mercado'', ''2.500.000.000''), (''Liquidez'', ''3.000.000''),
          (''Liquidez'', ''4.000.000''), (''Vacancia Media'', ''5,00%'')]]) =
     (Some (Frame [''Dividend Yield'', ''P/VP'', ''Valor de Mercado'', ''Liquidez'', ''Liquidez'',
                   ''Vacancia Media'']
        [[(''Dividend Yield'', Flt 0.1234), (''P/VP'', Flt 0.95),
          (''Valor de Mercado'', Flt 2500000000), (''Liquidez'', Str ''3.000.000''),
          (''Liquidez'', Str ''4.000.000''), (''Vacancia Media'', Flt 0.05)]]), []) \<and>
   apply_filters
     (Frame [''Dividend Yield'', ''P/VP'', ''Valor de Mercado'', ''Liquidez'', ''Liquidez'',
             ''Vacancia Media'']
        [[(''Dividend Yield'', Flt 0.1234), (''P/VP'', Flt 0.95),
          (''Valor de Mercado'', Flt 2500000000), (''Liquidez'', Str ''3.000.000''),
          (''Liquidez'', Str ''4.000.000''), (''Vacancia Media'', Flt 0.05)]]) =
     (None, [Print (ErroAplicarFiltros TypeError)])"
  by (simp add: conv_defs clean_defs apply_filters_def filters_try_def gt_mask_def lt_mask_def
      py_lt_def cell_num_def)

text \<open>
  Claim C2. Both percentage columns turn \<^verbatim>\<open>"12,34%"\<close> into 0.1234. The conversion of
  \<^verbatim>\<open>Dividend Yield\<close> drops the thousands separator, so \<^verbatim>\<open>"1.234,56%"\<close> becomes 12.3456;
  the conversion of \<^verbatim>\<open>Vacancia Media\<close> does not drop it, so the same string is a
  \<^verbatim>\<open>ValueError\<close> there and the normalizer returns its failure signal.
\<close>

theorem vacancia_media_keeps_thousands_separator:
  "conv_dividend_yield ''12,34%'' = Inr 0.1234 \<and>
   conv_vacancia_media ''12,34%'' = Inr 0.1234 \<and>
   conv_dividend_yield ''1.234,56%'' = Inr 12.3456 \<and>
   conv_vacancia_media ''1.234,56%'' = Inl (ValueError ''1.234.56'') \<and>
   clean_and_convert_data
     (Frame [''Dividend Yield'', ''P/VP'', ''Valor de Mercado'', ''Liquidez'', ''Vacancia Media'']
        [[(''Dividend Yield'', ''1.234,56%''), (''P/VP'', ''0,95''),
          (''Valor de Mercado'', ''2.500.000.000''), (''Liquidez'', ''3.000.000''),
          (''Vacancia Media'', ''1.234,56%'')]]) =
     (None, [Print (ErroConverterDados (ValueError ''1.234.56''))])"
  by (simp add: conv_defs clean_defs)

section \<open>Properties of the pipeline\<close>

lemma calculate_score_events:
  "snd (calculate_score row) = [] \<or> (\<exists>e. snd (calculate_score row) = [Print (ErroCalcularScore e)])"
  by (simp add: calculate_score_def split: sum.splits)

lemma add_nota_events:
  "ev \<in> set (snd (add_nota df)) \<Longrightarrow> \<exists>e. ev = Print (ErroCalcularScore e)"
proof -
  assume "ev \<in> set (snd (add_nota df))"
  then obtain row where "ev \<in> set (snd (calculate_score row))"
    by (auto simp: add_nota_def)
  with calculate_score_events [of row] show ?thesis by auto
qed






lemma clean_events:
  "snd (clean_and_convert_data raw) = [] \<or>
   (\<exists>e. snd (clean_and_convert_data raw) = [Print (ErroConverterDados e)])"
  by (simp add: clean_and_convert_data_def split: sum.splits)




lemma main_unfold:
  "main w =
     ([Print Banner, Print Fonte] @ snd (verificar_arquivo_existente w output_file) @
      [Print IniciandoRaspagem] @ snd (scrape_fundamentus_fiis w) @
      fst (after_scrape w (fst (scrape_fundamentus_fiis w))),
      snd (after_scrape w (fst (scrape_fundamentus_fiis w))))"
  by (simp add: main_def verificar_arquivo_existente_def split: prod.splits)

text \<open>
  Claim C9. When the scraper, the normalizer or the filter returns its failure signal, the
  run ends with the diagnostic of that stage followed by the closing message of
  \<^verbatim>\<open>main\<close>: nothing is scored, ranked or grouped, and no file is written.
\<close>

theorem failed_stage_stops_pipeline:
  "(\<forall>w f. site w = Inl f \<longrightarrow>
      (\<exists>d. main w =
         ([Print Banner, Print Fonte] @ snd (verificar_arquivo_existente w output_file) @
          [Print IniciandoRaspagem, Print d, Print NaoFoiPossivelObterDados], Returned)) \<and>
      \<not> writes_file (fst (main w))) \<and>
   (\<forall>w raw ev. site w = Inr raw \<and> clean_and_convert_data raw = (None, ev) \<longrightarrow>
      (\<exists>e. main w =
         ([Print Banner, Print Fonte] @ snd (verificar_arquivo_existente w output_file) @
          [Print IniciandoRaspagem, Print DadosObtidos, Print (ErroConverterDados e),
           Print ErroProcessarDados], Returned)) \<and>
      \<not> writes_file (fst (main w))) \<and>
   (\<forall>w df ev. apply_filters df = (None, ev) \<longrightarrow>
      (\<exists>e. after_clean w (Some df) =
         ([Print (ErroAplicarFiltros e), Print ErroFiltrarDados], Returned))) \<and>
   (\<forall>w. after_scrape w None = ([Print NaoFoiPossivelObterDados], Returned) \<and>
        after_clean w None = ([Print ErroProcessarDados], Returned) \<and>
        after_filter w None = ([Print ErroFiltrarDados], Returned))"
proof (intro conjI allI impI)
  fix w f assume s: "site w = Inl f"
  show "\<exists>d. main w =
         ([Print Banner, Print Fonte] @ snd (verificar_arquivo_existente w output_file) @
          [Print IniciandoRaspagem, Print d, Print NaoFoiPossivelObterDados], Returned)"
    by (cases f) (simp_all add: main_unfold scrape_fundamentus_fiis_def s after_scrape_def)
  then show "\<not> writes_file (fst (main w))"
    by (auto simp: writes_file_def verificar_arquivo_existente_def split: if_splits)
next
  fix w raw ev assume "site w = Inr raw \<and> clean_and_convert_data raw = (None, ev)"
  then have s: "site w = Inr raw" and c: "clean_and_convert_data raw = (None, ev)" by simp_all
  from c obtain e where ev: "ev = [Print (ErroConverterDados e)]"
    by (auto simp: clean_and_convert_data_def split: sum.splits)
  have "main w =
         ([Print Banner, Print Fonte] @ snd (verificar_arquivo_existente w output_file) @
          [Print IniciandoRaspagem, Print DadosObtidos, Print (ErroConverterDados e),
           Print ErroProcessarDados], Returned)"
    by (simp add: main_unfold scrape_fundamentus_fiis_def s after_scrape_def c ev after_clean_def)
  then show "\<exists>e. main w =
         ([Print Banner, Print Fonte] @ snd (verificar_arquivo_existente w output_file) @
          [Print IniciandoRaspagem, Print DadosObtidos, Print (ErroConverterDados e),
           Print ErroProcessarDados], Returned)" ..
  then show "\<not> writes_file (fst (main w))"
    by (auto simp: writes_file_def verificar_arquivo_existente_def split: if_splits)
next
  fix w df ev assume a: "apply_filters df = (None, ev)"
  then obtain e where ev: "ev = [Print (ErroAplicarFiltros e)]"
    by (auto simp: apply_filters_def split: sum.splits)
  show "\<exists>e. after_clean w (Some df) =
         ([Print (ErroAplicarFiltros e), Print ErroFiltrarDados], Returned)"
    by (simp add: after_clean_def a ev after_filter_def)
qed (simp_all add: after_scrape_def after_clean_def after_filter_def)

theorem failed_stage_stops_pipeline_witness:
  "main (World (\<lambda>f. False) (Inl TableNotFound) True) =
     ([Print Banner, Print Fonte, Print IniciandoRaspagem, Print ErroTabelaNaoEncontrada,
       Print NaoFoiPossivelObterDados], Returned) \<and>
   \<not> writes_file (fst (main (World (\<lambda>f. False) (Inr (Frame [] [])) True))) \<and>
   after_clean (World (\<lambda>f. False) (Inr (Frame [] [])) True)
       (Some (Frame [] [])) =
     ([Print (ErroAplicarFiltros (KeyError ''Dividend Yield'')), Print ErroFiltrarDados], Returned)"
proof -
  let ?w1 = "(World (\<lambda>f. False) (Inl TableNotFound) True)"
  let ?w2 = "(World (\<lambda>f. False) (Inr (Frame [] [])) True)"
  have c: "clean_and_convert_data (Frame [] []) =
        (None, [Print (ErroConverterDados (KeyError ''Dividend Yield''))])"
    by (simp add: clean_defs)
  have f: "apply_filters (Frame [] []) =
        (None, [Print (ErroAplicarFiltros (KeyError ''Dividend Yield''))])"
    by (simp add: apply_filters_def filters_try_def gt_mask_def get_column_def and_then_def)
  note t = failed_stage_stops_pipeline
  from t have "\<not> writes_file (fst (main ?w2))"
    using c by (metis world.sel(2))
  moreover from t obtain e where "after_clean ?w2 (Some (Frame [] [])) =
     ([Print (ErroAplicarFiltros e), Print ErroFiltrarDados], Returned)"
    using f by blast
  then have "after_clean ?w2 (Some (Frame [] [])) =
     ([Print (ErroAplicarFiltros (KeyError ''Dividend Yield'')), Print ErroFiltrarDados], Returned)"
    by (simp add: after_clean_def f after_filter_def)
  moreover from t obtain d where "main ?w1 =
         ([Print Banner, Print Fonte] @ snd (verificar_arquivo_existente ?w1 output_file) @
          [Print IniciandoRaspagem, Print d, Print NaoFoiPossivelObterDados], Returned)"
    by (metis world.sel(2))
  then have "main ?w1 =
     ([Print Banner, Print Fonte, Print IniciandoRaspagem, Print ErroTabelaNaoEncontrada,
       Print NaoFoiPossivelObterDados], Returned)"
    by (simp add: main_unfold scrape_fundamentus_fiis_def after_scrape_def
        verificar_arquivo_existente_def)
  ultimately show ?thesis by simp
qed

section \<open>Properties of the scorer\<close>

lemma py_le_Flt_left:
  "py_le (Flt k) v = (case cell_num v of None \<Rightarrow> Inl TypeError | Some x \<Rightarrow> Inr (k \<le> x))"
  by (cases v) (simp_all add: py_le_def cell_num_def)

lemma py_le_Flt_right:
  "py_le v (Flt k) = (case cell_num v of None \<Rightarrow> Inl TypeError | Some x \<Rightarrow> Inr (x \<le> k))"
  by (cases v) (simp_all add: py_le_def cell_num_def)

lemma at_least_step_eq:
  "at_least_step row c hi lo score =
     (case map_of row c of
        None \<Rightarrow> Inl (KeyError c)
      | Some v \<Rightarrow> (case cell_num v of
                    None \<Rightarrow> Inl TypeError
                  | Some x \<Rightarrow> Inr (score + points_at_least hi lo x)))"
  by (simp add: at_least_step_def and_then_def lookup_def py_le_Flt_left points_at_least_def
      split: option.splits)

lemma at_most_step_eq:
  "at_most_step row c lo hi score =
     (case map_of row c of
        None \<Rightarrow> Inl (KeyError c)
      | Some v \<Rightarrow> (case cell_num v of
                    None \<Rightarrow> Inl TypeError
                  | Some x \<Rightarrow> Inr (score + points_at_most lo hi x)))"
  by (simp add: at_most_step_def and_then_def lookup_def py_le_Flt_right points_at_most_def
      split: option.splits)

lemma step_num_field:
  "at_least_step row c hi lo score =
     (case num_field row c of
        None \<Rightarrow> Inl (if map_of row c = None then KeyError c else TypeError)
      | Some x \<Rightarrow> Inr (score + points_at_least hi lo x))"
  "at_most_step row c lo' hi' score =
     (case num_field row c of
        None \<Rightarrow> Inl (if map_of row c = None then KeyError c else TypeError)
      | Some x \<Rightarrow> Inr (score + points_at_most lo' hi' x))"
  by (simp_all add: at_least_step_eq at_most_step_eq num_field_def split: option.splits)

lemma points_range:
  "points_at_least hi lo x \<in> {0, 1, 2}" "points_at_most lo hi x \<in> {0, 1, 2}"
  by (simp_all add: points_at_least_def points_at_most_def)

lemma points_bounds:
  "0 \<le> points_at_least hi lo x" "points_at_least hi lo x \<le> 2"
  "0 \<le> points_at_most lo hi x" "points_at_most lo hi x \<le> 2"
  by (simp_all add: points_at_least_def points_at_most_def)

lemma total_points_bounds: "0 \<le> total_points dy pvp liq vm vac" "total_points dy pvp liq vm vac \<le> 10"
proof -
  note b = points_bounds
  show "0 \<le> total_points dy pvp liq vm vac"
    unfolding total_points_def
    by (intro add_nonneg_nonneg b)
  have "total_points dy pvp liq vm vac \<le> 2 + 2 + 2 + 2 + 2"
    unfolding total_points_def by (intro add_mono b)
  then show "total_points dy pvp liq vm vac \<le> 10" by simp
qed

lemma and_then_Inr [simp]: "and_then (Inr x) f = f x"
  by (simp add: and_then_def)

lemma and_then_Inl [simp]: "and_then (Inl e) f = Inl e"
  by (simp add: and_then_def)

lemma step_some:
  "num_field row c = Some x \<Longrightarrow> at_least_step row c hi lo score = Inr (score + points_at_least hi lo x)"
  "num_field row c = Some x \<Longrightarrow> at_most_step row c lo' hi' score = Inr (score + points_at_most lo' hi' x)"
  by (simp_all add: step_num_field)

lemma step_none:
  "num_field row c = None \<Longrightarrow> \<exists>e. at_least_step row c hi lo score = Inl e"
  "num_field row c = None \<Longrightarrow> \<exists>e. at_most_step row c lo' hi' score = Inl e"
  by (simp_all add: step_num_field)

lemma score_try_numeric:
  assumes "num_field row ''Dividend Yield'' = Some dy" and "num_field row ''P/VP'' = Some pvp"
    and "num_field row ''Liquidez'' = Some liq" and "num_field row ''Valor de Mercado'' = Some vm"
    and "num_field row ''Vacancia Media'' = Some vac"
  shows "score_try row = Inr (min (total_points dy pvp liq vm vac) 10)"
proof -
  have 1: "at_least_step row ''Dividend Yield'' 0.14 0.12 0 = Inr (points_at_least 0.14 0.12 dy)"
    using step_some(1) [OF assms(1), of "0.14" "0.12" 0] by simp
  show ?thesis
    unfolding score_try_def
    apply (subst 1)
    apply (subst and_then_Inr)
    apply (subst step_some(2) [OF assms(2)])
    apply (subst and_then_Inr)
    apply (subst step_some(1) [OF assms(3)])
    apply (subst and_then_Inr)
    apply (subst step_some(1) [OF assms(4)])
    apply (subst and_then_Inr)
    apply (subst step_some(2) [OF assms(5)])
    apply (subst and_then_Inr)
    apply (simp only: total_points_def)
    done
qed

lemma score_try_missing:
  assumes "c \<in> set score_columns" and "num_field row c = None"
  shows "\<exists>e. score_try row = Inl e"
proof -
  have bind: "\<exists>e. and_then r f = Inl e" if "\<And>x. r = Inr x \<Longrightarrow> \<exists>e. f x = Inl e"
    for r :: "error + int" and f :: "int \<Rightarrow> error + int"
    using that by (cases r) auto
  from assms(1) have "c = ''Dividend Yield'' \<or> c = ''P/VP'' \<or> c = ''Liquidez'' \<or>
      c = ''Valor de Mercado'' \<or> c = ''Vacancia Media''"
    unfolding score_columns_def by (simp only: list.set insert_iff empty_iff simp_thms)
  then consider "c = ''Dividend Yield''" | "c = ''P/VP''" | "c = ''Liquidez''"
    | "c = ''Valor de Mercado''" | "c = ''Vacancia Media''"
    by (elim disjE) simp_all
  then show ?thesis
  proof cases
    case 1
    with step_none(1) [OF assms(2), of "0.14" "0.12" 0] show ?thesis
      unfolding score_try_def by auto
  next
    case 2
    have "\<exists>e. at_most_step row ''P/VP'' 0.80 0.85 x = Inl e" for x
      using step_none(2) [OF assms(2)] 2 by simp
    then have g: "\<exists>e. and_then (at_most_step row ''P/VP'' 0.80 0.85 x) f = Inl e" for x f
      by (metis and_then_Inl)
    show ?thesis unfolding score_try_def
      by (rule bind, rule g)
  next
    case 3
    have "\<exists>e. at_least_step row ''Liquidez'' 5000000 2000000 x = Inl e" for x
      using step_none(1) [OF assms(2)] 3 by simp
    then have g: "\<exists>e. and_then (at_least_step row ''Liquidez'' 5000000 2000000 x) f = Inl e" for x f
      by (metis and_then_Inl)
    show ?thesis unfolding score_try_def
      by (rule bind, rule bind, rule g)
  next
    case 4
    have "\<exists>e. at_least_step row ''Valor de Mercado'' 2000000000 1500000000 x = Inl e" for x
      using step_none(1) [OF assms(2)] 4 by simp
    then have g: "\<exists>e. and_then (at_least_step row ''Valor de Mercado'' 2000000000 1500000000 x) f = Inl e" for x f
      by (metis and_then_Inl)
    show ?thesis unfolding score_try_def
      by (rule bind, rule bind, rule bind, rule g)
  next
    case 5
    have "\<exists>e. at_most_step row ''Vacancia Media'' 0.05 0.10 x = Inl e" for x
      using step_none(2) [OF assms(2)] 5 by simp
    then have g: "\<exists>e. and_then (at_most_step row ''Vacancia Media'' 0.05 0.10 x) f = Inl e" for x f
      by (metis and_then_Inl)
    show ?thesis unfolding score_try_def
      by (rule bind, rule bind, rule bind, rule bind, rule g)
  qed
qed

lemma all_score_columns:
  assumes "\<not> (\<exists>c\<in>set score_columns. num_field row c = None)"
  shows "\<exists>dy pvp liq vm vac.
      num_field row ''Dividend Yield'' = Some dy \<and> num_field row ''P/VP'' = Some pvp \<and>
      num_field row ''Liquidez'' = Some liq \<and> num_field row ''Valor de Mercado'' = Some vm \<and>
      num_field row ''Vacancia Media'' = Some vac"
proof -
  have "num_field row c \<noteq> None" if "c \<in> set score_columns" for c
    using assms that by auto
  then have "num_field row ''Dividend Yield'' \<noteq> None" "num_field row ''P/VP'' \<noteq> None"
    "num_field row ''Liquidez'' \<noteq> None" "num_field row ''Valor de Mercado'' \<noteq> None"
    "num_field row ''Vacancia Media'' \<noteq> None"
    unfolding score_columns_def by (simp_all only: list.set insert_iff simp_thms)
  then show ?thesis by auto
qed

lemma some_score_column:
  assumes "c \<in> set score_columns" and "num_field row c = None"
  shows "num_field row ''Dividend Yield'' = None \<or> num_field row ''P/VP'' = None \<or>
      num_field row ''Liquidez'' = None \<or> num_field row ''Valor de Mercado'' = None \<or>
      num_field row ''Vacancia Media'' = None"
proof -
  from assms(1) have "c = ''Dividend Yield'' \<or> c = ''P/VP'' \<or> c = ''Liquidez'' \<or>
      c = ''Valor de Mercado'' \<or> c = ''Vacancia Media''"
    unfolding score_columns_def by (simp only: list.set insert_iff empty_iff simp_thms)
  then show ?thesis
    using assms(2) by (elim disjE) simp_all
qed

lemma calculate_score_missing:
  assumes "c \<in> set score_columns" and "num_field row c = None"
  shows "\<exists>e. calculate_score row = (0, [Print (ErroCalcularScore e)])"
  using score_try_missing [OF assms] by (auto simp: calculate_score_def)

lemma calculate_score_numeric:
  assumes "num_field row ''Dividend Yield'' = Some dy" and "num_field row ''P/VP'' = Some pvp"
    and "num_field row ''Liquidez'' = Some liq" and "num_field row ''Valor de Mercado'' = Some vm"
    and "num_field row ''Vacancia Media'' = Some vac"
  shows "calculate_score row = (min (total_points dy pvp liq vm vac) 10, [])"
  by (simp add: calculate_score_def score_try_numeric [OF assms])

lemma calculate_score_fields:
  "fst (calculate_score row) =
     score_of_fields (num_field row ''Dividend Yield'') (num_field row ''P/VP'')
       (num_field row ''Liquidez'') (num_field row ''Valor de Mercado'')
       (num_field row ''Vacancia Media'')"
proof (cases "\<exists>c\<in>set score_columns. num_field row c = None")
  case True
  then obtain c where c: "c \<in> set score_columns" "num_field row c = None" by auto
  from calculate_score_missing [OF c] have "fst (calculate_score row) = 0" by auto
  moreover from some_score_column [OF c]
  have "score_of_fields (num_field row ''Dividend Yield'') (num_field row ''P/VP'')
       (num_field row ''Liquidez'') (num_field row ''Valor de Mercado'')
       (num_field row ''Vacancia Media'') = 0"
    by (elim disjE) (simp_all add: score_of_fields_def split: option.splits)
  ultimately show ?thesis by simp
next
  case False
  then obtain dy pvp liq vm vac where n:
      "num_field row ''Dividend Yield'' = Some dy" "num_field row ''P/VP'' = Some pvp"
      "num_field row ''Liquidez'' = Some liq" "num_field row ''Valor de Mercado'' = Some vm"
      "num_field row ''Vacancia Media'' = Some vac"
    using all_score_columns [of row] by auto
  show ?thesis
    by (simp add: calculate_score_numeric [OF n] n score_of_fields_def total_points_def)
qed

lemma calculate_score_bounds: "0 \<le> fst (calculate_score row) \<and> fst (calculate_score row) \<le> 10"
proof (cases "\<exists>c\<in>set score_columns. num_field row c = None")
  case True
  then obtain c where c: "c \<in> set score_columns" "num_field row c = None" by auto
  from calculate_score_missing [OF c] show ?thesis by auto
next
  case False
  then obtain dy pvp liq vm vac where n:
      "num_field row ''Dividend Yield'' = Some dy" "num_field row ''P/VP'' = Some pvp"
      "num_field row ''Liquidez'' = Some liq" "num_field row ''Valor de Mercado'' = Some vm"
      "num_field row ''Vacancia Media'' = Some vac"
    using all_score_columns [of row] by auto
  show ?thesis
    using total_points_bounds [of dy pvp liq vm vac]
    by (simp add: calculate_score_numeric [OF n])
qed

text \<open>
  Claim C4. For a record whose five scored fields are numbers, the score is the sum of
  five contributions, one per field and each 0, 1 or 2; it lies between 0 and 10, and the
  cap at 10 leaves the sum as it is. Nothing is printed.
\<close>

theorem score_is_sum_of_five_checks:
  assumes "num_field row ''Dividend Yield'' = Some dy" and "num_field row ''P/VP'' = Some pvp"
    and "num_field row ''Liquidez'' = Some liq" and "num_field row ''Valor de Mercado'' = Some vm"
    and "num_field row ''Vacancia Media'' = Some vac"
  shows "calculate_score row =
           (points_at_least 0.14 0.12 dy + points_at_most 0.80 0.85 pvp +
            points_at_least 5000000 2000000 liq + points_at_least 2000000000 1500000000 vm +
            points_at_most 0.05 0.10 vac, []) \<and>
         points_at_least 0.14 0.12 dy \<in> {0, 1, 2} \<and> points_at_most 0.80 0.85 pvp \<in> {0, 1, 2} \<and>
         points_at_least 5000000 2000000 liq \<in> {0, 1, 2} \<and>
         points_at_least 2000000000 1500000000 vm \<in> {0, 1, 2} \<and>
         points_at_most 0.05 0.10 vac \<in> {0, 1, 2} \<and>
         0 \<le> fst (calculate_score row) \<and> fst (calculate_score row) \<le> 10"
proof -
  have "min (total_points dy pvp liq vm vac) 10 = total_points dy pvp liq vm vac"
    using total_points_bounds(2) [of dy pvp liq vm vac] by simp
  then have "calculate_score row = (total_points dy pvp liq vm vac, [])"
    by (simp add: calculate_score_numeric [OF assms])
  then show ?thesis
    using calculate_score_bounds [of row] points_range
    by (simp add: total_points_def)
qed

theorem score_is_sum_of_five_checks_witness:
  "calculate_score
     [(''Papel'', Str ''ABCD11''), (''Dividend Yield'', Flt 0.1234), (''P/VP'', Flt 0.95),
      (''Valor de Mercado'', Flt 2500000000), (''Liquidez'', Flt 3000000),
      (''Vacancia Media'', Flt 0.05)] = (6, [])"
  using score_is_sum_of_five_checks
    [of "[(''Papel'', Str ''ABCD11''), (''Dividend Yield'', Flt 0.1234), (''P/VP'', Flt 0.95),
      (''Valor de Mercado'', Flt 2500000000), (''Liquidez'', Flt 3000000),
      (''Vacancia Media'', Flt 0.05)]" "0.1234" "0.95" 3000000 2500000000 "0.05"]
  by (simp add: num_field_def cell_num_def points_at_least_def points_at_most_def)

lemma points_mono:
  "x \<le> y \<Longrightarrow> points_at_least hi lo x \<le> points_at_least hi lo y"
  "x \<le> y \<Longrightarrow> points_at_most lo hi y \<le> points_at_most lo hi x"
  by (simp_all add: points_at_least_def points_at_most_def)

lemma score_of_fields_mono:
  assumes "x \<le> y"
  shows "score_of_fields (Some x) b c d e \<le> score_of_fields (Some y) b c d e"
    and "score_of_fields a (Some y) c d e \<le> score_of_fields a (Some x) c d e"
    and "score_of_fields a b (Some x) d e \<le> score_of_fields a b (Some y) d e"
    and "score_of_fields a b c (Some x) e \<le> score_of_fields a b c (Some y) e"
    and "score_of_fields a b c d (Some y) \<le> score_of_fields a b c d (Some x)"
proof -
  note m = points_mono [OF assms]
  show "score_of_fields (Some x) b c d e \<le> score_of_fields (Some y) b c d e"
    using m(1) [of "0.14" "0.12"]
    by (cases b; cases c; cases d; cases e) (simp_all add: score_of_fields_def)
  show "score_of_fields a (Some y) c d e \<le> score_of_fields a (Some x) c d e"
    using m(2) [of "0.80" "0.85"]
    by (cases a; cases c; cases d; cases e) (simp_all add: score_of_fields_def)
  show "score_of_fields a b (Some x) d e \<le> score_of_fields a b (Some y) d e"
    using m(1) [of 5000000 2000000]
    by (cases a; cases b; cases d; cases e) (simp_all add: score_of_fields_def)
  show "score_of_fields a b c (Some x) e \<le> score_of_fields a b c (Some y) e"
    using m(1) [of 2000000000 1500000000]
    by (cases a; cases b; cases c; cases e) (simp_all add: score_of_fields_def)
  show "score_of_fields a b c d (Some y) \<le> score_of_fields a b c d (Some x)"
    using m(2) [of "0.05" "0.10"]
    by (cases a; cases b; cases c; cases d) (simp_all add: score_of_fields_def)
qed

text \<open>
  Claim C5. Of two records that differ in one metric only, the one with the higher
  \<^verbatim>\<open>Dividend Yield\<close>, \<^verbatim>\<open>Liquidez\<close> or \<^verbatim>\<open>Valor de Mercado\<close>, or with the lower
  \<^verbatim>\<open>P/VP\<close> or \<^verbatim>\<open>Vacancia Media\<close>, never has the lower score; and no score exceeds 10.
\<close>

theorem score_is_monotonic:
  assumes "x \<le> y"
  shows "fst (calculate_score (AList.update ''Dividend Yield'' (Flt x) row)) \<le>
         fst (calculate_score (AList.update ''Dividend Yield'' (Flt y) row)) \<and>
         fst (calculate_score (AList.update ''Liquidez'' (Flt x) row)) \<le>
         fst (calculate_score (AList.update ''Liquidez'' (Flt y) row)) \<and>
         fst (calculate_score (AList.update ''Valor de Mercado'' (Flt x) row)) \<le>
         fst (calculate_score (AList.update ''Valor de Mercado'' (Flt y) row)) \<and>
         fst (calculate_score (AList.update ''P/VP'' (Flt y) row)) \<le>
         fst (calculate_score (AList.update ''P/VP'' (Flt x) row)) \<and>
         fst (calculate_score (AList.update ''Vacancia Media'' (Flt y) row)) \<le>
         fst (calculate_score (AList.update ''Vacancia Media'' (Flt x) row)) \<and>
         fst (calculate_score row) \<le> 10"
  using score_of_fields_mono [OF assms] calculate_score_bounds [of row]
  by (simp add: calculate_score_fields num_field_update cell_num_def)

theorem score_is_monotonic_witness:
  "fst (calculate_score [(''Dividend Yield'', Flt 0.13), (''P/VP'', Flt 0.95),
      (''Valor de Mercado'', Flt 2500000000), (''Liquidez'', Flt 3000000),
      (''Vacancia Media'', Flt 0.05)]) \<le>
   fst (calculate_score [(''Dividend Yield'', Flt 0.15), (''P/VP'', Flt 0.95),
      (''Valor de Mercado'', Flt 2500000000), (''Liquidez'', Flt 3000000),
      (''Vacancia Media'', Flt 0.05)])"
  using score_is_monotonic [of "0.13" "0.15" "[(''Dividend Yield'', Flt 0.13), (''P/VP'', Flt 0.95),
      (''Valor de Mercado'', Flt 2500000000), (''Liquidez'', Flt 3000000),
      (''Vacancia Media'', Flt 0.05)]"]
  by simp

lemma add_nota_rows:
  "rows (fst (add_nota df)) =
     map (\<lambda>row. AList.update ''Nota'' (IntV (fst (calculate_score row))) row) (rows df)"
proof -
  have "map (\<lambda>(r, v). AList.update c v r) (zip rs (map f rs)) = map (\<lambda>r. AList.update c (f r) r) rs"
    for c and f :: "series \<Rightarrow> cell" and rs
    by (induction rs) simp_all
  then show ?thesis by (simp add: add_nota_def set_column_def)
qed

section \<open>Properties of the ranker and grouper\<close>

lemma total_preorder_on_subset:
  "total_preorder_on R le \<Longrightarrow> S \<subseteq> R \<Longrightarrow> total_preorder_on S le"
  unfolding total_preorder_on_def by (meson subsetD)

lemma set_insort_by: "set (insort_by le x ys) = insert x (set ys)"
  by (induction ys) auto

lemma mset_insort_by: "mset (insort_by le x ys) = add_mset x (mset ys)"
  by (induction ys) auto

lemma sort_by_Cons: "sort_by le (x # xs) = insort_by le x (sort_by le xs)"
  by (simp add: sort_by_def)

lemma sort_by_Nil: "sort_by le [] = []"
  by (simp add: sort_by_def)

lemma mset_sort_by: "mset (sort_by le xs) = mset xs"
  by (induction xs) (simp_all add: sort_by_Nil sort_by_Cons mset_insort_by)

lemma set_sort_by: "set (sort_by le xs) = set xs"
  using mset_sort_by [of le xs] by (metis set_mset_mset)

lemma insort_by_first: "\<forall>z\<in>set zs. le x z \<Longrightarrow> insort_by le x zs = x # zs"
  by (cases zs) simp_all

lemma sorted_insort_by:
  assumes "total_preorder_on (insert x (set ys)) le" and "sorted_wrt le ys"
  shows "sorted_wrt le (insort_by le x ys)"
  using assms
proof (induction ys)
  case Nil
  then show ?case by simp
next
  case (Cons y ys)
  have tp: "total_preorder_on (insert x (set ys)) le"
    by (rule total_preorder_on_subset [OF Cons.prems(1)]) auto
  have tot: "le x y \<or> le y x"
    using Cons.prems(1) unfolding total_preorder_on_def by simp
  have tr: "le a b \<Longrightarrow> le b c \<Longrightarrow> le a c"
    if "a \<in> insert x (set (y # ys))" "b \<in> insert x (set (y # ys))" "c \<in> insert x (set (y # ys))"
    for a b c
    using Cons.prems(1) that unfolding total_preorder_on_def by blast
  show ?case
  proof (cases "le x y")
    case True
    have "le x z" if "z \<in> set ys" for z
    proof -
      from Cons.prems(2) that have "le y z" by simp
      with True show ?thesis using tr [of x y z] that by simp
    qed
    with True Cons.prems(2) show ?thesis by simp
  next
    case False
    with tot have yx: "le y x" by simp
    have "sorted_wrt le (insort_by le x ys)"
      using Cons.IH [OF tp] Cons.prems(2) by simp
    moreover have "\<forall>z\<in>set (insort_by le x ys). le y z"
      using yx Cons.prems(2) by (simp add: set_insort_by)
    ultimately show ?thesis using False by simp
  qed
qed

lemma sorted_sort_by:
  assumes "total_preorder_on (set xs) le"
  shows "sorted_wrt le (sort_by le xs)"
  using assms
proof (induction xs)
  case Nil
  then show ?case by (simp add: sort_by_Nil)
next
  case (Cons x xs)
  have "total_preorder_on (set xs) le"
    by (rule total_preorder_on_subset [OF Cons.prems]) auto
  then have "sorted_wrt le (sort_by le xs)" by (rule Cons.IH)
  moreover have "total_preorder_on (insert x (set (sort_by le xs))) le"
    using Cons.prems by (simp add: set_sort_by)
  ultimately show ?case
    unfolding sort_by_Cons by (intro sorted_insort_by)
qed

lemma filter_insort_by:
  assumes "total_preorder_on (insert x (set ys)) le" and "sorted_wrt le ys"
  shows "filter P (insort_by le x ys) = (if P x then insort_by le x (filter P ys) else filter P ys)"
  using assms
proof (induction ys)
  case Nil
  then show ?case by simp
next
  case (Cons y ys)
  have tp: "total_preorder_on (insert x (set ys)) le"
    by (rule total_preorder_on_subset [OF Cons.prems(1)]) auto
  have tr: "le a b \<Longrightarrow> le b c \<Longrightarrow> le a c"
    if "a \<in> insert x (set (y # ys))" "b \<in> insert x (set (y # ys))" "c \<in> insert x (set (y # ys))"
    for a b c
    using Cons.prems(1) that unfolding total_preorder_on_def by blast
  show ?case
  proof (cases "le x y")
    case True
    have all: "le x z" if "z \<in> set (y # ys)" for z
    proof (cases "z = y")
      case True
      with \<open>le x y\<close> show ?thesis by simp
    next
      case False
      with that Cons.prems(2) have "le y z" by simp
      with \<open>le x y\<close> show ?thesis using tr [of x y z] that by simp
    qed
    then have "\<forall>z\<in>set (filter P (y # ys)). le x z" by simp
    then have "insort_by le x (filter P (y # ys)) = x # filter P (y # ys)"
      by (rule insort_by_first)
    with True show ?thesis by simp
  next
    case False
    have ih: "filter P (insort_by le x ys) =
        (if P x then insort_by le x (filter P ys) else filter P ys)"
      using Cons.IH [OF tp] Cons.prems(2) by simp
    show ?thesis using False by (simp add: ih)
  qed
qed

lemma filter_sort_by:
  assumes "total_preorder_on (set xs) le"
  shows "filter P (sort_by le xs) = sort_by le (filter P xs)"
  using assms
proof (induction xs)
  case Nil
  then show ?case by (simp add: sort_by_Nil)
next
  case (Cons x xs)
  have tp: "total_preorder_on (set xs) le"
    by (rule total_preorder_on_subset [OF Cons.prems]) auto
  have s: "sorted_wrt le (sort_by le xs)" by (rule sorted_sort_by [OF tp])
  have tp': "total_preorder_on (insert x (set (sort_by le xs))) le"
    using Cons.prems by (simp add: set_sort_by)
  show ?case
    by (simp add: sort_by_Cons filter_insort_by [OF tp' s] Cons.IH [OF tp])
qed

lemma sort_by_sorted: "sorted_wrt le xs \<Longrightarrow> sort_by le xs = xs"
proof (induction xs)
  case Nil
  then show ?case by (simp add: sort_by_Nil)
next
  case (Cons x xs)
  then have "sort_by le xs = xs" and "\<forall>z\<in>set xs. le x z" by simp_all
  then show ?case by (simp add: sort_by_Cons insort_by_first)
qed


lemma head_rows_subset: "mset (head_rows n c seen rs) \<subseteq># mset rs"
proof (induction rs arbitrary: seen)
  case Nil
  then show ?case by simp
next
  case (Cons r rs)
  have "mset (head_rows n c (map_of r c # seen) rs) \<subseteq># mset rs" by (rule Cons.IH)
  then show ?case
    by (auto intro: subset_mset.order_trans)
qed

lemma total_preorder_on_key:
  fixes key :: "'a \<Rightarrow> 'k::linorder"
  assumes "\<And>a b. a \<in> R \<Longrightarrow> b \<in> R \<Longrightarrow> le a b \<longleftrightarrow> key a \<le> key b"
  shows "total_preorder_on R le"
  unfolding total_preorder_on_def
proof (intro conjI ballI impI)
  fix x y assume "x \<in> R" "y \<in> R"
  then show "le x y \<or> le y x" using assms [of x y] assms [of y x] linear [of "key x" "key y"] by simp
next
  fix x y z assume "x \<in> R" "y \<in> R" "z \<in> R" "le x y" "le y z"
  then show "le x z"
    using assms [of x y] assms [of y z] assms [of x z] order_trans [of "key x" "key y" "key z"]
    by simp
qed

lemma key_lt_num:
  "num_field a c = Some x \<Longrightarrow> num_field b c = Some y \<Longrightarrow> key_lt c a b = (x < y)"
  by (auto simp: key_lt_def num_field_def py_lt_def cell_num_def split: option.splits cell.splits)


lemma row_le_score:
  assumes "scored a" and "scored b"
  shows "row_le [(''Nota'', False), (''Dividend Yield'', False)] a b \<longleftrightarrow> score_key a \<le> score_key b"
    and "row_le [(''Nota'', False), (''Dividend Yield'', False)] a b \<longleftrightarrow> by_score_then_yield a b"
proof -
  from assms obtain sa ya sb yb where v:
    "num_field a ''Nota'' = Some sa" "num_field a ''Dividend Yield'' = Some ya"
    "num_field b ''Nota'' = Some sb" "num_field b ''Dividend Yield'' = Some yb"
    by (auto simp: scored_def)
  have k: "key_lt ''Nota'' a b = (sa < sb)" "key_lt ''Nota'' b a = (sb < sa)"
    "key_lt ''Dividend Yield'' a b = (ya < yb)" "key_lt ''Dividend Yield'' b a = (yb < ya)"
    by (simp_all add: key_lt_num v)
  show "row_le [(''Nota'', False), (''Dividend Yield'', False)] a b \<longleftrightarrow> score_key a \<le> score_key b"
    unfolding row_le.simps k score_key_def v option.sel less_eq_prod_def by auto
  show "row_le [(''Nota'', False), (''Dividend Yield'', False)] a b \<longleftrightarrow> by_score_then_yield a b"
    unfolding row_le.simps k by_score_then_yield_def v by auto
qed




lemma traverse_all_Inr:
  "(\<And>x. x \<in> set xs \<Longrightarrow> f x = Inr (g x)) \<Longrightarrow> traverse f xs = Inr (map g xs)"
  by (induction xs) simp_all

lemma num_col_rows: "num_col c df \<Longrightarrow> r \<in> set (rows df) \<Longrightarrow> num_field r c \<noteq> None"
  by (simp add: num_col_def list_all_iff)

lemma str_col_rows: "str_col c df \<Longrightarrow> r \<in> set (rows df) \<Longrightarrow> str_field r c \<noteq> None"
  by (simp add: str_col_def list_all_iff)

lemma get_column_present:
  assumes "c \<in> set (columns df)" and "\<And>r. r \<in> set (rows df) \<Longrightarrow> map_of r c \<noteq> None"
  shows "get_column c df = Inr (map (\<lambda>r. the (map_of r c)) (rows df))"
proof -
  have "traverse (\<lambda>r. lookup r c) (rows df) = Inr (map (\<lambda>r. the (map_of r c)) (rows df))"
    by (rule traverse_all_Inr) (use assms(2) in \<open>auto simp: lookup_def split: option.splits\<close>)
  with assms(1) show ?thesis by (simp add: get_column_def)
qed

lemma sort_key_check_num:
  assumes "num_col c df"
  shows "sort_key_check df c = Inr ()"
proof -
  have c: "c \<in> set (columns df)" using assms by (simp add: num_col_def)
  have p: "map_of r c \<noteq> None \<and> \<not> is_str (the (map_of r c))" if "r \<in> set (rows df)" for r
    using num_col_rows [OF assms that]
    by (auto simp: num_field_def cell_num_def is_str_def split: option.splits cell.splits)
  have "get_column c df = Inr (map (\<lambda>r. the (map_of r c)) (rows df))"
    by (rule get_column_present [OF c]) (use p in auto)
  moreover have "list_all (\<lambda>v. \<not> is_str v) (map (\<lambda>r. the (map_of r c)) (rows df))"
    using p by (simp add: list_all_iff)
  ultimately show ?thesis by (simp add: sort_key_check_def)
qed

lemma sort_key_check_str:
  assumes "str_col c df"
  shows "sort_key_check df c = Inr ()"
proof -
  have c: "c \<in> set (columns df)" using assms by (simp add: str_col_def)
  have p: "map_of r c \<noteq> None \<and> is_str (the (map_of r c))" if "r \<in> set (rows df)" for r
    using str_col_rows [OF assms that]
    by (auto simp: str_field_def is_str_def split: option.splits cell.splits)
  have "get_column c df = Inr (map (\<lambda>r. the (map_of r c)) (rows df))"
    by (rule get_column_present [OF c]) (use p in auto)
  moreover have "list_all is_str (map (\<lambda>r. the (map_of r c)) (rows df))"
    using p by (simp add: list_all_iff)
  ultimately show ?thesis by (simp add: sort_key_check_def)
qed

lemma sort_values_checked:
  assumes "\<And>c asc. (c, asc) \<in> set keys \<Longrightarrow> sort_key_check df c = Inr ()"
  shows "sort_values keys df = Inr (Frame (columns df) (sort_by (row_le keys) (rows df)))"
proof -
  have "traverse (\<lambda>(c, ascending). sort_key_check df c) keys = Inr (map (\<lambda>k. ()) keys)"
    by (rule traverse_all_Inr) (use assms in auto)
  then show ?thesis by (simp add: sort_values_def)
qed

lemma sorted_wrt_all: "(\<And>x y. x \<in> set xs \<Longrightarrow> y \<in> set xs \<Longrightarrow> le x y) \<Longrightarrow> sorted_wrt le xs"
  by (induction xs) simp_all

lemma sorted_wrt_adjacent:
  "sorted_wrt le xs \<Longrightarrow> Suc i < length xs \<Longrightarrow> le (xs ! i) (xs ! Suc i)"
  by (simp add: sorted_wrt_iff_nth_less)

lemma sort_values_ranked:
  assumes "num_col ''Nota'' df" and "num_col ''Dividend Yield'' df"
  shows "\<exists>out. sort_values [(''Nota'', False), (''Dividend Yield'', False)] df = Inr out \<and>
           columns out = columns df \<and> mset (rows out) = mset (rows df) \<and>
           sorted_wrt by_score_then_yield (rows out) \<and>
           (\<forall>i. Suc i < length (rows out) \<longrightarrow>
                by_score_then_yield (rows out ! i) (rows out ! Suc i)) \<and>
           (\<forall>s y. filter (\<lambda>r. num_field r ''Nota'' = Some s \<and> num_field r ''Dividend Yield'' = Some y)
                    (rows out) =
                  filter (\<lambda>r. num_field r ''Nota'' = Some s \<and> num_field r ''Dividend Yield'' = Some y)
                    (rows df))"
proof -
  let ?ks = "[(''Nota'', False), (''Dividend Yield'', False)]"
  let ?le = "row_le ?ks"
  let ?out = "sort_by ?le (rows df)"
  have sc: "scored r" if "r \<in> set (rows df)" for r
    using num_col_rows [OF assms(1) that] num_col_rows [OF assms(2) that] by (simp add: scored_def)
  have tp: "total_preorder_on (set (rows df)) ?le"
    by (rule total_preorder_on_key [where key = score_key]) (intro row_le_score(1) sc)
  have sv: "sort_values ?ks df = Inr (Frame (columns df) ?out)"
    by (rule sort_values_checked) (use assms in \<open>auto simp: sort_key_check_num\<close>)
  have "sorted_wrt ?le ?out" by (rule sorted_sort_by [OF tp])
  then have sorted: "sorted_wrt by_score_then_yield ?out"
    by (rule sorted_wrt_mono_rel [rotated]) (simp only: set_sort_by row_le_score(2) sc)
  have stable: "filter P ?out = filter P (rows df)"
    if P: "\<And>r. P r \<Longrightarrow> num_field r ''Nota'' = Some s \<and> num_field r ''Dividend Yield'' = Some y"
    for P s y
  proof -
    have "?le a b" if "a \<in> set (filter P (rows df))" "b \<in> set (filter P (rows df))" for a b
    proof -
      from that have "scored a" "scored b" by (simp_all add: sc)
      moreover from that P have "by_score_then_yield a b"
        by (auto simp: by_score_then_yield_def)
      ultimately show ?thesis by (simp only: row_le_score(2))
    qed
    then have "sorted_wrt ?le (filter P (rows df))" by (rule sorted_wrt_all)
    then have "sort_by ?le (filter P (rows df)) = filter P (rows df)" by (rule sort_by_sorted)
    then show ?thesis by (simp add: filter_sort_by [OF tp])
  qed
  show ?thesis
  proof (intro exI conjI allI impI)
    show "sort_values ?ks df = Inr (Frame (columns df) ?out)" by (rule sv)
    show "columns (Frame (columns df) ?out) = columns df" by simp
    show "mset (rows (Frame (columns df) ?out)) = mset (rows df)" by (simp add: mset_sort_by)
    show "sorted_wrt by_score_then_yield (rows (Frame (columns df) ?out))" using sorted by simp
    show "by_score_then_yield (rows (Frame (columns df) ?out) ! i) (rows (Frame (columns df) ?out) ! Suc i)"
      if "Suc i < length (rows (Frame (columns df) ?out))" for i
      using sorted_wrt_adjacent [OF sorted, of i] that by simp
    show "filter (\<lambda>r. num_field r ''Nota'' = Some s \<and> num_field r ''Dividend Yield'' = Some y)
            (rows (Frame (columns df) ?out)) =
          filter (\<lambda>r. num_field r ''Nota'' = Some s \<and> num_field r ''Dividend Yield'' = Some y)
            (rows df)" for s y
      using stable [of "\<lambda>r. num_field r ''Nota'' = Some s \<and> num_field r ''Dividend Yield'' = Some y" s y]
      by simp
  qed
qed


lemmas sort_eval = sort_values_def sort_key_check_def get_column_def lookup_def is_str_def
  sort_by_def key_lt_def py_lt_def cell_num_def



section \<open>Properties of the report block\<close>

lemma map_of_project:
  "map_of (project cs r) c = (if c \<in> set cs then map_of r c else None)"
proof (induction cs)
  case Nil
  then show ?case by (simp add: project_def)
next
  case (Cons a cs)
  have "project (a # cs) r = (case map_of r a of None \<Rightarrow> [] | Some v \<Rightarrow> [(a, v)]) @ project cs r"
    by (simp add: project_def)
  then show ?case
    using Cons.IH by (cases "map_of r a") (auto simp: map_add_def split: option.splits)
qed

lemma traverse_project:
  assumes "\<And>c. c \<in> set cs \<Longrightarrow> map_of r c \<noteq> None"
  shows "traverse (\<lambda>c. and_then (lookup r c) (\<lambda>v. Inr (c, v))) cs = Inr (project cs r)"
  using assms
proof (induction cs)
  case Nil
  then show ?case by (simp add: project_def)
next
  case (Cons a cs)
  from Cons.prems obtain v where v: "map_of r a = Some v" by fastforce
  have "traverse (\<lambda>c. and_then (lookup r c) (\<lambda>v. Inr (c, v))) cs = Inr (project cs r)"
    by (rule Cons.IH) (simp add: Cons.prems)
  moreover have "project (a # cs) r = (a, v) # project cs r"
    by (simp add: project_def v)
  ultimately show ?case by (simp add: lookup_def v)
qed

lemma select_columns_ok:
  assumes "\<And>c. c \<in> set cs \<Longrightarrow> c \<in> set (columns df)"
    and "\<And>r c. r \<in> set (rows df) \<Longrightarrow> c \<in> set cs \<Longrightarrow> map_of r c \<noteq> None"
  shows "select_columns cs df = Inr (Frame cs (map (project cs) (rows df)))"
proof -
  have "filter (\<lambda>c. c \<notin> set (columns df)) cs = []"
    using assms(1) by (simp add: filter_empty_conv)
  moreover have "traverse (\<lambda>r. traverse (\<lambda>c. and_then (lookup r c) (\<lambda>v. Inr (c, v))) cs) (rows df) =
      Inr (map (project cs) (rows df))"
    by (rule traverse_all_Inr) (rule traverse_project, rule assms(2))
  ultimately show ?thesis by (simp add: select_columns_def)
qed

lemma select_columns_missing:
  assumes "c \<in> set cs" and "c \<notin> set (columns df)"
  shows "\<exists>c'. select_columns cs df = Inl (KeyError c')"
proof -
  from assms have "filter (\<lambda>c. c \<notin> set (columns df)) cs \<noteq> []"
    by (auto simp: filter_empty_conv)
  then obtain c' rest where "filter (\<lambda>c. c \<notin> set (columns df)) cs = c' # rest"
    by (cases "filter (\<lambda>c. c \<notin> set (columns df)) cs") auto
  then show ?thesis by (simp add: select_columns_def)
qed

lemma add_nota_frame:
  "fst (add_nota df) =
     Frame (if ''Nota'' \<in> set (columns df) then columns df else columns df @ [''Nota''])
       (map scored_row (rows df))"
  using add_nota_rows [of df]
  by (cases "fst (add_nota df)") (simp add: add_nota_def set_column_def scored_row_def [abs_def])

lemma map_of_scored_row:
  "map_of (scored_row r) c = (if c = ''Nota'' then Some (IntV (fst (calculate_score r))) else map_of r c)"
  by (simp add: scored_row_def update_conv')

lemma add_nota_no_write: "\<not> writes_file (snd (add_nota df))"
proof -
  have "\<not> (case ev of WriteExcel path sheets \<Rightarrow> True | Print m \<Rightarrow> False)"
    if "ev \<in> set (snd (add_nota df))" for ev
    using add_nota_events [OF that] by auto
  then show ?thesis by (auto simp: writes_file_def list_ex_iff)
qed

lemma score_columns_in_report:
  "c \<in> set score_columns \<Longrightarrow> c \<in> set report_columns \<and> c \<noteq> ''Nota''"
  unfolding score_columns_def report_columns_def
  by (simp only: list.set insert_iff empty_iff simp_thms) (elim disjE; simp)

lemma rank_and_save_unfold:
  "rank_and_save w df =
     (case select_columns report_columns (fst (add_nota df)) of
        Inl e \<Rightarrow> (snd (add_nota df), Uncaught e)
      | Inr final_df \<Rightarrow>
          (case sort_values [(''Nota'', False), (''Dividend Yield'', False)] final_df of
             Inl e \<Rightarrow> (snd (add_nota df), Uncaught e)
           | Inr final_df \<Rightarrow>
               (case get_top_by_segment final_df 5 of
                  Inl e \<Rightarrow> (snd (add_nota df), Uncaught e)
                | Inr top_by_segment \<Rightarrow>
                    (snd (add_nota df) @ save_report w final_df top_by_segment, Returned))))"
  by (simp add: rank_and_save_def case_prod_beta)

lemma rank_and_save_missing_column:
  assumes "c \<in> set score_columns" and "c \<notin> set (columns df)"
  shows "\<exists>c'. rank_and_save w df = (snd (add_nota df), Uncaught (KeyError c'))"
proof -
  from score_columns_in_report [OF assms(1)] have c: "c \<in> set report_columns" "c \<noteq> ''Nota''"
    by simp_all
  with assms(2) have "c \<notin> set (columns (fst (add_nota df)))"
    by (simp add: add_nota_frame)
  from select_columns_missing [OF c(1) this] obtain c' where
    "select_columns report_columns (fst (add_nota df)) = Inl (KeyError c')" ..
  then have "rank_and_save w df = (snd (add_nota df), Uncaught (KeyError c'))"
    by (simp add: rank_and_save_unfold)
  then show ?thesis ..
qed

lemma num_col_iff:
  "num_col c df \<longleftrightarrow> c \<in> set (columns df) \<and> (\<forall>r\<in>set (rows df). num_field r c \<noteq> None)"
  by (simp add: num_col_def list_all_iff)

lemma str_col_iff:
  "str_col c df \<longleftrightarrow> c \<in> set (columns df) \<and> (\<forall>r\<in>set (rows df). str_field r c \<noteq> None)"
  by (simp add: str_col_def list_all_iff)

lemma get_top_by_segment_ok:
  assumes "str_col ''Segmento'' df" and "num_col ''Nota'' df" and "num_col ''Dividend Yield'' df"
  shows "\<exists>top_df. get_top_by_segment df n = Inr top_df"
proof (cases "frame_empty df")
  case True
  then show ?thesis by (simp add: get_top_by_segment_def)
next
  case False
  let ?k3 = "[(''Segmento'', True), (''Nota'', False), (''Dividend Yield'', False)]"
  let ?k2 = "[(''Segmento'', True), (''Nota'', False)]"
  let ?S = "sort_by (row_le ?k3) (rows df)"
  let ?H = "head_rows n ''Segmento'' [] ?S"
  let ?O = "sort_by (row_le ?k2) ?H"
  have setS: "set ?S = set (rows df)" by (rule set_sort_by)
  have "mset ?H \<subseteq># mset ?S" by (rule head_rows_subset)
  from set_mset_mono [OF this] have setH: "set ?H \<subseteq> set (rows df)"
    by (simp add: setS)
  have sv3: "sort_values ?k3 df = Inr (Frame (columns df) ?S)"
    by (rule sort_values_checked)
      (use assms in \<open>auto simp: sort_key_check_num sort_key_check_str\<close>)
  have colsH: "str_col ''Segmento'' (Frame (columns df) ?H)" "num_col ''Nota'' (Frame (columns df) ?H)"
    using assms(1,2) setH by (auto simp: str_col_iff num_col_iff)
  have "sort_values ?k2 (Frame (columns df) ?H) =
      Inr (Frame (columns (Frame (columns df) ?H))
            (sort_by (row_le ?k2) (rows (Frame (columns df) ?H))))"
    by (rule sort_values_checked)
      (use colsH in \<open>auto simp: sort_key_check_num sort_key_check_str\<close>)
  then have sv2: "sort_values ?k2 (Frame (columns df) ?H) = Inr (Frame (columns df) ?O)"
    by simp
  have "map_of r ''Segmento'' \<noteq> None" if "r \<in> set ?S" for r
    using that str_col_rows [OF assms(1), of r]
    by (auto simp: setS str_field_def split: option.splits)
  moreover have "''Segmento'' \<in> set (columns df)"
    using assms(1) by (simp add: str_col_def)
  ultimately have gc: "get_column ''Segmento'' (Frame (columns df) ?S) =
      Inr (map (\<lambda>r. the (map_of r ''Segmento'')) ?S)"
    using get_column_present [of "''Segmento''" "Frame (columns df) ?S"] by simp
  have gh: "groupby_head ''Segmento'' n (Frame (columns df) ?S) = Inr (Frame (columns df) ?H)"
    by (simp add: groupby_head_def gc)
  show ?thesis
    using False by (simp add: get_top_by_segment_def sv3 gh sv2)
qed

lemma report_columns_split: "report_columns = report_inputs @ [''Nota'']"
  by (simp add: report_columns_def report_inputs_def)

lemma report_ready_columns:
  assumes "report_ready f" and "c \<in> set report_columns"
  shows "c \<in> set (columns (fst (add_nota f)))"
    and "r \<in> set (rows f) \<Longrightarrow> map_of (scored_row r) c \<noteq> None"
proof -
  from assms(2) have c: "c \<in> set report_inputs \<or> c = ''Nota''"
    by (auto simp: report_columns_split)
  have cols: "c' \<in> set (columns f)" if "c' \<in> set report_inputs" for c'
    using assms(1) that by (simp add: report_ready_def list_all_iff)
  show "c \<in> set (columns (fst (add_nota f)))"
    using c cols by (auto simp: add_nota_frame)
  show "map_of (scored_row r) c \<noteq> None" if "r \<in> set (rows f)"
  proof (cases "c = ''Nota''")
    case True
    then show ?thesis by (simp add: map_of_scored_row)
  next
    case False
    with c have "c \<in> set report_inputs" by simp
    with assms(1) that have "map_of r c \<noteq> None"
      by (simp add: report_ready_def list_all_iff)
    with False show ?thesis by (simp add: map_of_scored_row)
  qed
qed

lemma rank_and_save_ok:
  assumes "report_ready f"
  shows "\<exists>final_df top_df.
           rank_and_save w f = (snd (add_nota f) @ save_report w final_df top_df, Returned) \<and>
           columns final_df = report_columns \<and>
           mset (rows final_df) =
             mset (map (\<lambda>r. project report_columns (scored_row r)) (rows f)) \<and>
           sorted_wrt by_score_then_yield (rows final_df) \<and>
           (\<forall>i. Suc i < length (rows final_df) \<longrightarrow>
                by_score_then_yield (rows final_df ! i) (rows final_df ! Suc i)) \<and>
           (\<forall>s y. filter (\<lambda>r. num_field r ''Nota'' = Some s \<and> num_field r ''Dividend Yield'' = Some y)
                    (rows final_df) =
                  filter (\<lambda>r. num_field r ''Nota'' = Some s \<and> num_field r ''Dividend Yield'' = Some y)
                    (map (\<lambda>r. project report_columns (scored_row r)) (rows f)))"
proof -
  let ?rows0 = "map (\<lambda>r. project report_columns (scored_row r)) (rows f)"
  let ?final0 = "Frame report_columns ?rows0"
  have "select_columns report_columns (fst (add_nota f)) =
      Inr (Frame report_columns (map (project report_columns) (rows (fst (add_nota f)))))"
  proof (rule select_columns_ok)
    show "c \<in> set (columns (fst (add_nota f)))" if "c \<in> set report_columns" for c
      by (rule report_ready_columns(1) [OF assms that])
    show "map_of r c \<noteq> None"
      if "r \<in> set (rows (fst (add_nota f)))" "c \<in> set report_columns" for r c
      using that report_ready_columns(2) [OF assms that(2)] by (auto simp: add_nota_frame)
  qed
  then have sel: "select_columns report_columns (fst (add_nota f)) = Inr ?final0"
    by (simp add: add_nota_frame comp_def)
  have nota: "''Nota'' \<in> set report_columns" and dy: "''Dividend Yield'' \<in> set report_columns"
    and seg: "''Segmento'' \<in> set report_columns"
    by (simp_all add: report_columns_def)
  have f_dy: "num_field r ''Dividend Yield'' \<noteq> None" and f_seg: "str_field r ''Segmento'' \<noteq> None"
    if "r \<in> set (rows f)" for r
    using assms that by (simp_all add: report_ready_def num_col_iff str_col_iff)
  have n0: "num_col ''Nota'' ?final0"
    using nota by (simp add: num_col_iff num_field_def map_of_project map_of_scored_row cell_num_def)
  have d0: "num_col ''Dividend Yield'' ?final0"
    using dy f_dy
    by (simp add: num_col_iff num_field_def map_of_project map_of_scored_row)
  have s0: "str_col ''Segmento'' ?final0"
    using seg f_seg
    by (simp add: str_col_iff str_field_def map_of_project map_of_scored_row)
  from sort_values_ranked [OF n0 d0] obtain final_df where
    sv: "sort_values [(''Nota'', False), (''Dividend Yield'', False)] ?final0 = Inr final_df"
    and cols: "columns final_df = columns ?final0"
    and ms: "mset (rows final_df) = mset (rows ?final0)"
    and sorted: "sorted_wrt by_score_then_yield (rows final_df)"
    and adj: "\<forall>i. Suc i < length (rows final_df) \<longrightarrow>
                by_score_then_yield (rows final_df ! i) (rows final_df ! Suc i)"
    and stable: "\<forall>s y. filter (\<lambda>r. num_field r ''Nota'' = Some s \<and> num_field r ''Dividend Yield'' = Some y)
                    (rows final_df) =
                  filter (\<lambda>r. num_field r ''Nota'' = Some s \<and> num_field r ''Dividend Yield'' = Some y)
                    (rows ?final0)"
    by blast
  from ms have set_eq: "set (rows final_df) = set ?rows0"
    by (metis frame.sel(2) set_mset_mset)
  have "str_col ''Segmento'' final_df" "num_col ''Nota'' final_df"
    "num_col ''Dividend Yield'' final_df"
    using n0 d0 s0 cols set_eq by (simp_all add: num_col_iff str_col_iff)
  from get_top_by_segment_ok [OF this] obtain top_df where
    top: "get_top_by_segment final_df 5 = Inr top_df"
    by blast
  have "rank_and_save w f = (snd (add_nota f) @ save_report w final_df top_df, Returned)"
    by (simp add: rank_and_save_unfold sel sv top)
  with cols ms sorted adj stable show ?thesis
    by (intro exI [of _ final_df] exI [of _ top_df]) simp
qed

lemma sample_filtered_ready: "report_ready sample_filtered"
  by (simp add: report_ready_def sample_filtered_def report_inputs_def str_col_def num_col_def
      str_field_def num_field_def cell_num_def del: not_None_eq)

lemma sample_scores:
  "calculate_score [(''Papel'', Str ''AAAA11''), (''Segmento'', Str ''Logistica''),
         (''Dividend Yield'', Flt 0.12), (''P/VP'', Flt 0.95),
         (''Valor de Mercado'', Flt 2500000000), (''Liquidez'', Flt 3000000),
         (''Qtd Imoveis'', Str ''3''), (''Vacancia Media'', Flt 0.05)] = (6, [])"
  "calculate_score [(''Papel'', Str ''BBBB11''), (''Segmento'', Str ''Hibrido''),
         (''Dividend Yield'', Flt 0.15), (''P/VP'', Flt 0.75),
         (''Valor de Mercado'', Flt 1500000000), (''Liquidez'', Flt 6000000),
         (''Qtd Imoveis'', Str ''7''), (''Vacancia Media'', Flt 0.12)] = (7, [])"
  by (simp_all add: calculate_score_def score_try_def step_num_field num_field_def cell_num_def
      points_at_least_def points_at_most_def)

lemma sample_report:
  "\<exists>sheets rest.
     rank_and_save (World p s True) sample_filtered =
       (WriteExcel output_file ((''Todos Fundos'', Frame report_columns sample_ranked) # sheets) #
        rest, Returned)"
  unfolding rank_and_save_unfold
  by (simp add: sample_filtered_def sample_ranked_def add_nota_def set_column_def
      calculate_score_def score_try_def step_num_field num_field_def cell_num_def
      points_at_least_def points_at_most_def
      select_columns_def report_columns_def lookup_def sort_eval get_top_by_segment_def
      frame_empty_def groupby_head_def save_report_def)

lemma sample_no_diagnostic: "snd (add_nota sample_filtered) = []"
  by (simp add: sample_filtered_def add_nota_def calculate_score_def score_try_def
      step_num_field num_field_def cell_num_def points_at_least_def points_at_most_def)

lemma save_report_writable:
  "writable w \<Longrightarrow>
     \<exists>sheets rest. save_report w final_df top_df =
       WriteExcel output_file ((''Todos Fundos'', final_df) # sheets) # rest"
  by (simp add: save_report_def)

lemma after_filter_nonempty: "rows f \<noteq> [] \<Longrightarrow> after_filter w (Some f) = rank_and_save w f"
  by (simp add: after_filter_def)


text \<open>
  Claim C7. The block of \<^verbatim>\<open>main\<close> that scores, ranks and saves (lines 264 to 303) is
  handed the filtered frame. For every non-empty filtered frame that holds the report's
  columns, with strings in \<^verbatim>\<open>Segmento\<close> and numbers in \<^verbatim>\<open>Dividend Yield\<close>, and a file
  that can be written, the sheet \<^verbatim>\<open>Todos Fundos\<close> that the block writes holds the
  report's columns and the records of the filtered frame, each with its score and cut to
  the report's columns, in the order of line 273: every record is followed by one of
  strictly lower score, or of equal score and a yield not greater than its own. Records
  equal in score and yield keep the order of the filtered frame.
\<close>

theorem written_report_is_ranked:
  assumes "report_ready f" and "writable w"
  shows "\<exists>final_df sheets rest.
           after_filter w (Some f) = rank_and_save w f \<and>
           rank_and_save w f =
             (snd (add_nota f) @
              WriteExcel output_file ((''Todos Fundos'', final_df) # sheets) # rest, Returned) \<and>
           columns final_df = report_columns \<and>
           mset (rows final_df) =
             mset (map (\<lambda>r. project report_columns (scored_row r)) (rows f)) \<and>
           sorted_wrt by_score_then_yield (rows final_df) \<and>
           (\<forall>i. Suc i < length (rows final_df) \<longrightarrow>
                by_score_then_yield (rows final_df ! i) (rows final_df ! Suc i)) \<and>
           (\<forall>s y. filter (\<lambda>r. num_field r ''Nota'' = Some s \<and> num_field r ''Dividend Yield'' = Some y)
                    (rows final_df) =
                  filter (\<lambda>r. num_field r ''Nota'' = Some s \<and> num_field r ''Dividend Yield'' = Some y)
                    (map (\<lambda>r. project report_columns (scored_row r)) (rows f)))"
proof -
  from rank_and_save_ok [OF assms(1), of w] obtain final_df top_df where
    r: "rank_and_save w f = (snd (add_nota f) @ save_report w final_df top_df, Returned)"
    and p: "columns final_df = report_columns"
      "mset (rows final_df) = mset (map (\<lambda>r. project report_columns (scored_row r)) (rows f))"
      "sorted_wrt by_score_then_yield (rows final_df)"
      "\<forall>i. Suc i < length (rows final_df) \<longrightarrow>
           by_score_then_yield (rows final_df ! i) (rows final_df ! Suc i)"
      "\<forall>s y. filter (\<lambda>r. num_field r ''Nota'' = Some s \<and> num_field r ''Dividend Yield'' = Some y)
                    (rows final_df) =
                  filter (\<lambda>r. num_field r ''Nota'' = Some s \<and> num_field r ''Dividend Yield'' = Some y)
                    (map (\<lambda>r. project report_columns (scored_row r)) (rows f))"
    by blast
  from save_report_writable [OF assms(2), of final_df top_df] obtain sheets rest where
    s: "save_report w final_df top_df =
          WriteExcel output_file ((''Todos Fundos'', final_df) # sheets) # rest"
    by blast
  have "rows f \<noteq> []" using assms(1) by (simp add: report_ready_def)
  then have a: "after_filter w (Some f) = rank_and_save w f" by (rule after_filter_nonempty)
  have b: "rank_and_save w f =
             (snd (add_nota f) @
              WriteExcel output_file ((''Todos Fundos'', final_df) # sheets) # rest, Returned)"
    by (simp only: r s)
  show ?thesis
    apply (rule exI [of _ final_df])
    apply (rule exI [of _ sheets])
    apply (rule exI [of _ rest])
    apply (intro conjI)
         apply (rule a)
        apply (rule b)
       apply (rule p(1))
      apply (rule p(2))
      apply (rule p(3))
     apply (rule p(4))
    apply (rule p(5))
    done
qed

theorem written_report_is_ranked_witness:
  "report_ready sample_filtered \<and> writable sample_world \<and>
   (\<exists>sheets rest.
      after_filter sample_world (Some sample_filtered) =
        (WriteExcel output_file ((''Todos Fundos'', Frame report_columns sample_ranked) # sheets) #
         rest, Returned)) \<and>
   sorted_wrt by_score_then_yield sample_ranked"
proof -
  have w: "writable sample_world" by (simp add: sample_world_def)
  from written_report_is_ranked [OF sample_filtered_ready w] obtain final_df sheets rest where
    a: "after_filter sample_world (Some sample_filtered) = rank_and_save sample_world sample_filtered"
    and "rank_and_save sample_world sample_filtered =
       (snd (add_nota sample_filtered) @
        WriteExcel output_file ((''Todos Fundos'', final_df) # sheets) # rest, Returned)"
    and sorted: "sorted_wrt by_score_then_yield (rows final_df)"
    by blast
  moreover from sample_report obtain sheets' rest' where
    r: "rank_and_save sample_world sample_filtered =
       (WriteExcel output_file ((''Todos Fundos'', Frame report_columns sample_ranked) # sheets') #
        rest', Returned)"
    unfolding sample_world_def by blast
  ultimately have "final_df = Frame report_columns sample_ranked"
    by (simp add: sample_no_diagnostic)
  with sorted have "sorted_wrt by_score_then_yield sample_ranked" by simp
  moreover have "\<exists>sheets rest.
      after_filter sample_world (Some sample_filtered) =
        (WriteExcel output_file ((''Todos Fundos'', Frame report_columns sample_ranked) # sheets) #
         rest, Returned)"
    unfolding a r by blast
  ultimately show ?thesis
    using sample_filtered_ready w by simp
qed

text \<open>
  No run of \<^verbatim>\<open>main\<close> writes the output file: the filter selects no record, so the block
  that saves the report is never entered.
\<close>

lemma main_never_writes: "\<not> writes_file (fst (main w))"
proof -
  have filt: "\<not> writes_file (fst (after_clean w c))" for c
  proof (cases c)
    case None
    then show ?thesis by (simp add: after_clean_def writes_file_def)
  next
    case (Some df)
    show ?thesis
    proof (cases "filters_try df")
      case (Inl e)
      then show ?thesis
        by (simp add: Some after_clean_def apply_filters_def after_filter_def writes_file_def)
    next
      case (Inr out)
      then have "out = Frame (columns df) []"
        by (simp add: filters_try_iff passes_filters_never)
      with Inr show ?thesis
        by (simp add: Some after_clean_def apply_filters_def after_filter_def writes_file_def)
    qed
  qed
  have scr: "\<not> writes_file (fst (after_scrape w s))" for s
  proof (cases s)
    case None
    then show ?thesis by (simp add: after_scrape_def writes_file_def)
  next
    case (Some raw)
    obtain c ev where a: "clean_and_convert_data raw = (c, ev)"
      by (cases "clean_and_convert_data raw")
    obtain ev' out where b: "after_clean w c = (ev', out)" by (cases "after_clean w c")
    from a clean_events [of raw] have "\<not> writes_file ev" by (auto simp: writes_file_def)
    moreover from b filt [of c] have "\<not> writes_file ev'" by simp
    ultimately show ?thesis
      by (simp add: after_scrape_def Some a b writes_file_def)
  qed
  have "\<not> writes_file (snd (scrape_fundamentus_fiis w))"
    by (simp add: scrape_fundamentus_fiis_def writes_file_def
        split: sum.splits scrape_failure.splits)
  with scr [of "fst (scrape_fundamentus_fiis w)"] show ?thesis
    by (simp add: main_unfold verificar_arquivo_existente_def writes_file_def)
qed




text \<open>
  Claim C3, as the code has it. When a record lacks a column the scorer reads,
  \<^verbatim>\<open>calculate_score\<close> catches the failure, prints a diagnostic and returns the score 0
  for that record: a substitute score, not a failure signal. The scoring goes on and gives
  every record of the frame its \<^verbatim>\<open>Nota\<close>. For a frame lacking a column the scorer reads
  no ranked report is produced all the same: the selection of the report's columns
  (line 268) asks for that column too and raises a \<^verbatim>\<open>KeyError\<close> that nothing catches,
  after the scorer's diagnostics and before anything is written. The statement is about
  the part of \<^verbatim>\<open>main\<close> that follows the filter, handed such a frame: the normalizer
  reads the same five columns, so a frame that it returned lacks none of them.
\<close>

theorem scorer_substitutes_zero:
  "(\<forall>row c. c \<in> set score_columns \<and> map_of row c = None \<longrightarrow>
      (\<exists>e. calculate_score row = (0, [Print (ErroCalcularScore e)]))) \<and>
   rows (fst (add_nota df)) =
     map (\<lambda>row. AList.update ''Nota'' (IntV (fst (calculate_score row))) row) (rows df) \<and>
   ''Nota'' \<in> set (columns (fst (add_nota df))) \<and>
   length (rows (fst (add_nota df))) = length (rows df) \<and>
   (\<forall>w c. c \<in> set score_columns \<and> c \<notin> set (columns df) \<longrightarrow>
      \<not> writes_file (fst (after_filter w (Some df))) \<and>
      (rows df \<noteq> [] \<longrightarrow>
         after_filter w (Some df) = rank_and_save w df \<and>
         (\<exists>c'. rank_and_save w df = (snd (add_nota df), Uncaught (KeyError c')))))"
proof -
  have "\<exists>e. calculate_score row = (0, [Print (ErroCalcularScore e)])"
    if "c \<in> set score_columns \<and> map_of row c = None" for row c
    using that calculate_score_missing [of c row] by (simp add: num_field_def)
  then have 1: "\<forall>row c. c \<in> set score_columns \<and> map_of row c = None \<longrightarrow>
      (\<exists>e. calculate_score row = (0, [Print (ErroCalcularScore e)]))"
    by (intro allI impI)
  have 2: "''Nota'' \<in> set (columns (fst (add_nota df)))"
    by (simp add: add_nota_def set_column_def)
  have 3: "\<not> writes_file (fst (after_filter w (Some df))) \<and>
      (rows df \<noteq> [] \<longrightarrow>
         after_filter w (Some df) = rank_and_save w df \<and>
         (\<exists>c'. rank_and_save w df = (snd (add_nota df), Uncaught (KeyError c'))))"
    if "c \<in> set score_columns \<and> c \<notin> set (columns df)" for w c
  proof -
    from that have c: "c \<in> set score_columns" "c \<notin> set (columns df)" by simp_all
    from rank_and_save_missing_column [OF c, of w] obtain c' where
      r: "rank_and_save w df = (snd (add_nota df), Uncaught (KeyError c'))" ..
    have "\<not> writes_file (fst (after_filter w (Some df)))"
    proof (cases "rows df = []")
      case True
      then show ?thesis by (simp add: after_filter_def writes_file_def)
    next
      case False
      then show ?thesis
        using add_nota_no_write [of df] by (simp add: after_filter_nonempty r)
    qed
    moreover have "after_filter w (Some df) = rank_and_save w df" if "rows df \<noteq> []"
      using that by (rule after_filter_nonempty)
    ultimately show ?thesis using r by blast
  qed
  then have 4: "\<forall>w c. c \<in> set score_columns \<and> c \<notin> set (columns df) \<longrightarrow>
      \<not> writes_file (fst (after_filter w (Some df))) \<and>
      (rows df \<noteq> [] \<longrightarrow>
         after_filter w (Some df) = rank_and_save w df \<and>
         (\<exists>c'. rank_and_save w df = (snd (add_nota df), Uncaught (KeyError c'))))"
    by (intro allI impI)
  show ?thesis
    using 1 2 4 by (simp only: add_nota_rows length_map simp_thms)
qed

theorem scorer_substitutes_zero_witness:
  "''Vacancia Media'' \<in> set score_columns \<and>
   ''Vacancia Media'' \<notin> set (columns (Frame [''Papel'', ''Dividend Yield'', ''P/VP'',
       ''Valor de Mercado'', ''Liquidez'']
      [[(''Papel'', Str ''ABCD11''), (''Dividend Yield'', Flt 0.15), (''P/VP'', Flt 0.75),
        (''Valor de Mercado'', Flt 2500000000), (''Liquidez'', Flt 6000000)]])) \<and>
   calculate_score [(''Papel'', Str ''ABCD11''), (''Dividend Yield'', Flt 0.15),
      (''P/VP'', Flt 0.75), (''Valor de Mercado'', Flt 2500000000), (''Liquidez'', Flt 6000000)] =
     (0, [Print (ErroCalcularScore (KeyError ''Vacancia Media''))]) \<and>
   \<not> writes_file (fst (after_filter sample_world
     (Some (Frame [''Papel'', ''Dividend Yield'', ''P/VP'', ''Valor de Mercado'', ''Liquidez'']
      [[(''Papel'', Str ''ABCD11''), (''Dividend Yield'', Flt 0.15), (''P/VP'', Flt 0.75),
        (''Valor de Mercado'', Flt 2500000000), (''Liquidez'', Flt 6000000)]])))) \<and>
   (\<exists>c'. after_filter sample_world
     (Some (Frame [''Papel'', ''Dividend Yield'', ''P/VP'', ''Valor de Mercado'', ''Liquidez'']
      [[(''Papel'', Str ''ABCD11''), (''Dividend Yield'', Flt 0.15), (''P/VP'', Flt 0.75),
        (''Valor de Mercado'', Flt 2500000000), (''Liquidez'', Flt 6000000)]])) =
     ([Print (ErroCalcularScore (KeyError ''Vacancia Media''))], Uncaught (KeyError c')))"
proof -
  let ?r = "[(''Papel'', Str ''ABCD11''), (''Dividend Yield'', Flt 0.15),
      (''P/VP'', Flt 0.75), (''Valor de Mercado'', Flt 2500000000), (''Liquidez'', Flt 6000000)]"
  let ?f = "Frame [''Papel'', ''Dividend Yield'', ''P/VP'', ''Valor de Mercado'', ''Liquidez'']
      [?r]"
  have c: "''Vacancia Media'' \<in> set score_columns" by (simp add: score_columns_def)
  have m: "map_of ?r ''Vacancia Media'' = None" by simp
  have n: "''Vacancia Media'' \<notin> set (columns ?f)" by simp
  have e: "rows ?f \<noteq> []" by simp
  have s: "calculate_score ?r = (0, [Print (ErroCalcularScore (KeyError ''Vacancia Media''))])"
    by (simp add: calculate_score_def score_try_def step_num_field num_field_def cell_num_def
        points_at_least_def points_at_most_def)
  have d: "snd (add_nota ?f) = [Print (ErroCalcularScore (KeyError ''Vacancia Media''))]"
    by (simp add: add_nota_def calculate_score_def score_try_def step_num_field num_field_def
        cell_num_def points_at_least_def points_at_most_def)
  note t = scorer_substitutes_zero [of ?f]
  from t c m obtain e' where "calculate_score ?r = (0, [Print (ErroCalcularScore e')])"
    by blast
  from t c n e have
    "\<not> writes_file (fst (after_filter sample_world (Some ?f))) \<and>
     after_filter sample_world (Some ?f) = rank_and_save sample_world ?f \<and>
     (\<exists>c'. rank_and_save sample_world ?f = (snd (add_nota ?f), Uncaught (KeyError c')))"
    by blast
  then have "\<not> writes_file (fst (after_filter sample_world (Some ?f))) \<and>
     (\<exists>c'. after_filter sample_world (Some ?f) =
        ([Print (ErroCalcularScore (KeyError ''Vacancia Media''))], Uncaught (KeyError c')))"
    by (simp only: d) auto
  with c n s show ?thesis by (simp only: simp_thms)
qed

text \<open>
  Claim C3 as stated fails: on a frame without the column \<^verbatim>\<open>Vacancia Media\<close> the scorer
  returns 0 for each record, the scoring returns the frame with a \<^verbatim>\<open>Nota\<close> of 0 in every
  row, and the part of \<^verbatim>\<open>main\<close> that follows the filter, handed this frame, goes on to
  the selection of the report's columns, where it ends with an uncaught \<^verbatim>\<open>KeyError\<close>,
  not with a failure signal of the scorer.
\<close>

theorem scorer_failure_is_not_a_failure_signal:
  "calculate_score [(''Papel'', Str ''ABCD11''), (''Segmento'', Str ''Logistica''),
      (''Dividend Yield'', Flt 0.15), (''P/VP'', Flt 0.75),
      (''Valor de Mercado'', Flt 2500000000), (''Liquidez'', Flt 6000000),
      (''Qtd Imoveis'', Str ''3'')] =
     (0, [Print (ErroCalcularScore (KeyError ''Vacancia Media''))]) \<and>
   add_nota (Frame [''Papel'', ''Segmento'', ''Dividend Yield'', ''P/VP'', ''Valor de Mercado'',
                    ''Liquidez'', ''Qtd Imoveis'']
      [[(''Papel'', Str ''ABCD11''), (''Segmento'', Str ''Logistica''),
        (''Dividend Yield'', Flt 0.15), (''P/VP'', Flt 0.75),
        (''Valor de Mercado'', Flt 2500000000), (''Liquidez'', Flt 6000000),
        (''Qtd Imoveis'', Str ''3'')],
       [(''Papel'', Str ''XYZW11''), (''Segmento'', Str ''Hibrido''),
        (''Dividend Yield'', Flt 0.16), (''P/VP'', Flt 0.70),
        (''Valor de Mercado'', Flt 2500000000), (''Liquidez'', Flt 6000000),
        (''Qtd Imoveis'', Str ''7'')]]) =
     (Frame [''Papel'', ''Segmento'', ''Dividend Yield'', ''P/VP'', ''Valor de Mercado'',
             ''Liquidez'', ''Qtd Imoveis'', ''Nota'']
      [[(''Papel'', Str ''ABCD11''), (''Segmento'', Str ''Logistica''),
        (''Dividend Yield'', Flt 0.15), (''P/VP'', Flt 0.75),
        (''Valor de Mercado'', Flt 2500000000), (''Liquidez'', Flt 6000000),
        (''Qtd Imoveis'', Str ''3''), (''Nota'', IntV 0)],
       [(''Papel'', Str ''XYZW11''), (''Segmento'', Str ''Hibrido''),
        (''Dividend Yield'', Flt 0.16), (''P/VP'', Flt 0.70),
        (''Valor de Mercado'', Flt 2500000000), (''Liquidez'', Flt 6000000),
        (''Qtd Imoveis'', Str ''7''), (''Nota'', IntV 0)]],
      [Print (ErroCalcularScore (KeyError ''Vacancia Media'')),
       Print (ErroCalcularScore (KeyError ''Vacancia Media''))]) \<and>
   after_filter (World (\<lambda>f. False) (Inl RequestFailed) True)
     (Some (Frame [''Papel'', ''Segmento'', ''Dividend Yield'', ''P/VP'', ''Valor de Mercado'',
             ''Liquidez'', ''Qtd Imoveis'']
      [[(''Papel'', Str ''ABCD11''), (''Segmento'', Str ''Logistica''),
        (''Dividend Yield'', Flt 0.15), (''P/VP'', Flt 0.75),
        (''Valor de Mercado'', Flt 2500000000), (''Liquidez'', Flt 6000000),
        (''Qtd Imoveis'', Str ''3'')],
       [(''Papel'', Str ''XYZW11''), (''Segmento'', Str ''Hibrido''),
        (''Dividend Yield'', Flt 0.16), (''P/VP'', Flt 0.70),
        (''Valor de Mercado'', Flt 2500000000), (''Liquidez'', Flt 6000000),
        (''Qtd Imoveis'', Str ''7'')]])) =
     ([Print (ErroCalcularScore (KeyError ''Vacancia Media'')),
       Print (ErroCalcularScore (KeyError ''Vacancia Media''))],
      Uncaught (KeyError ''Vacancia Media''))"
proof -
  have score: "calculate_score [(''Papel'', Str p), (''Segmento'', Str s),
      (''Dividend Yield'', Flt dy), (''P/VP'', Flt pvp),
      (''Valor de Mercado'', Flt vm), (''Liquidez'', Flt liq), (''Qtd Imoveis'', Str q)] =
     (0, [Print (ErroCalcularScore (KeyError ''Vacancia Media''))])" for p s dy pvp vm liq q
    by (simp add: calculate_score_def score_try_def step_num_field num_field_def cell_num_def)
  show ?thesis
    by (simp add: score after_filter_def rank_and_save_def add_nota_def set_column_def
        select_columns_def report_columns_def)
qed

end
